theory Spec2Isabelle
  imports Complex_Main "HOL-Library.AList"
begin

section \<open>Server-side subscription (packages/node-opcua-server/src/subscription.js)\<close>

text \<open>
  JavaScript numbers are modelled as \<open>int\<close>: the counters of a subscription are OPC UA
  \<open>Counter\<close> values and the publishing interval is taken in whole milliseconds, for
  which the arithmetic of the source (\<open>+\<close>, \<open>Math.max\<close>, \<open>Math.min\<close>,
  \<open>Math.ceil\<close> of a quotient) is exact. Sequence numbers and array indices are
  \<open>nat\<close>. Wall-clock values (\<open>new Date()\<close>, the \<open>publishTime\<close> fields) are left
  out of the records; \<open>dispose()\<close> is not part of the model, so the queues are never
  \<open>null\<close>.
\<close>

subsection \<open>Data model\<close>

datatype SubscriptionState = CLOSED | CREATING | NORMAL | LATE | KEEPALIVE | TERMINATED

datatype StatusCode =
    Good
  | BadTimeout
  | BadSequenceNumberUnknown
  | BadMonitoredItemIdInvalid
  | GoodSubscriptionTransferred
  | BadConditionBranchAlreadyAcked
  | BadConditionBranchAlreadyConfirmed

datatype error = AssertionError | TypeError | Error

text \<open>
  What a monitored item hands over: a \<open>MonitoredItemNotification\<close> (data change) or an
  \<open>EventFieldList\<close> (event); the payload is a number standing for the content.
\<close>

datatype notification_element = MonitoredItemNotification nat | EventFieldList nat

datatype notification_data =
    DataChangeNotification "notification_element list"
  | EventNotificationList "notification_element list"
  | StatusChangeNotification StatusCode

record NotificationMessage =
  sequenceNumber :: nat
  notificationData :: "notification_data list"

text \<open>The objects pushed on \<open>_pending_notifications\<close> and moved to \<open>_sent_notifications\<close>.\<close>

record queued_notification =
  notification :: NotificationMessage
  start_tick :: int
  entry_sequenceNumber :: nat

text \<open>
  Modelled from the spec: the monitored item (\<open>./monitored_item\<close>) is an external
  collaborator; of its contract the subscription uses \<open>hasMonitoredItemNotifications\<close>,
  \<open>extractMonitoredItemNotifications()\<close> (drains the notification buffer),
  \<open>terminate()\<close> and \<open>dispose()\<close>.
\<close>

record MonitoredItem =
  notification_buffer :: "notification_element list"
  item_terminated :: bool
  item_disposed :: bool

text \<open>
  Modelled from the spec: the publish engine is external; the subscription reads
  \<open>pendingPublishRequestCount\<close> and calls \<open>send_notification_message\<close>,
  \<open>send_keep_alive_response\<close> (which tell whether a request was consumed),
  \<open>on_close_subscription\<close> and the optional hook \<open>_on_tick\<close>.
\<close>

record PublishEngine =
  pendingPublishRequestCount :: nat
  has_on_tick :: bool

record SubscriptionDiagnostics =
  modifyCount :: int
  enableCount :: int
  disableCount :: int
  notificationsCount :: int
  publishRequestCount :: int
  dataChangeNotificationsCount :: int
  eventNotificationsCount :: int

text \<open>
  The log of a subscription, in program order: the events emitted to listeners, the calls
  into the publish engine and the session, the timer calls, and the pushes onto the
  pending queue (\<open>_pending_notifications.push\<close>).
\<close>

datatype effect =
    Emit string
  | EmitNotificationMessage NotificationMessage
  | EmitKeepalive nat
  | EmitRemoveMonitoredItem nat MonitoredItem
  | PushPendingNotification queued_notification
  | SendNotificationMessage nat nat "notification_data list" bool bool
  | SendKeepAliveResponse nat nat
  | OnCloseSubscription
  | OnTick
  | UnexposeSubscriptionDiagnostics
  | ClearInterval
  | SetInterval int
  | SetImmediateTick

record Subscription =
  subscriptionId :: nat
  priority :: int
  publishingInterval :: int
  maxKeepAliveCount :: int
  lifeTimeCount :: int
  maxNotificationsPerPublish :: int
  publishingEnabled :: bool
  messageSent :: bool
  keep_alive_counter :: int
  life_time_counter :: int
  publishIntervalCount :: int
  unacknowledgedMessageCount :: int
  state :: SubscriptionState
  pending_notifications :: "queued_notification list"
  sent_notifications :: "queued_notification list"
  sequence_number_generator :: "nat option"
  monitoredItems :: "(nat \<times> MonitoredItem) list"
    \<comment> \<open>the object \<open>monitoredItems\<close>, read through \<open>map_of\<close>\<close>
  hasMonitoredItemNotifications_cache :: bool
  timerId :: "int option"
  publishEngine :: PublishEngine
  has_session :: bool
  subscriptionDiagnostics :: SubscriptionDiagnostics
  trace :: "effect list"

subsection \<open>Retransmission queue\<close>

definition maxNotificationMessagesInQueue :: nat where
  "maxNotificationMessagesInQueue = 100"

text \<open>
  \<open>Array.prototype.splice(start)\<close> with one argument deletes every element from
  \<open>start\<close> to the end of the array and leaves the elements before \<open>start\<close>; a
  negative \<open>start\<close> counts from the end.
\<close>

definition splice_from :: "int \<Rightarrow> 'a list \<Rightarrow> 'a list" where
  "splice_from start xs =
     (let len = int (length xs);
          k = (if start < 0 then max (len + start) 0 else min start len)
      in take (nat k) xs)"

text \<open>\<open>splice(start, deleteCount)\<close> for \<open>0 \<le> start\<close>.\<close>

definition splice :: "nat \<Rightarrow> nat \<Rightarrow> 'a list \<Rightarrow> 'a list" where
  "splice start deleteCount xs = take start xs @ drop (start + deleteCount) xs"

definition discardOldSentNotifications :: "Subscription \<Rightarrow> Subscription" where
  "discardOldSentNotifications s =
     (if maxNotificationMessagesInQueue \<le> length (sent_notifications s)
      then s\<lparr>sent_notifications :=
                splice_from (int (length (sent_notifications s)) - int maxNotificationMessagesInQueue)
                  (sent_notifications s)\<rparr>
      else s)"

text \<open>
  The callback given to \<open>_.find\<close> in \<open>acknowledgeNotification\<close> returns nothing, so
  \<open>_.find\<close> visits every element; \<open>foundIndex\<close> ends as the index of the last entry
  with the sequence number, or \<open>-1\<close>.
\<close>

fun find_index_loop :: "nat \<Rightarrow> queued_notification list \<Rightarrow> nat \<Rightarrow> int \<Rightarrow> int" where
  "find_index_loop n [] index foundIndex = foundIndex"
| "find_index_loop n (e # es) index foundIndex =
     find_index_loop n es (Suc index)
       (if entry_sequenceNumber e = n then int index else foundIndex)"

definition acknowledgeNotification :: "nat \<Rightarrow> Subscription \<Rightarrow> StatusCode \<times> Subscription" where
  "acknowledgeNotification n s =
     (let foundIndex = find_index_loop n (sent_notifications s) 0 (- 1)
      in if foundIndex = - 1 then (BadSequenceNumberUnknown, s)
         else (Good, s\<lparr>sent_notifications := splice (nat foundIndex) 1 (sent_notifications s),
                        unacknowledgedMessageCount := unacknowledgedMessageCount s - 1\<rparr>))"

subsection \<open>Parameter adjustment\<close>

definition minimumPublishingInterval :: int where
  "minimumPublishingInterval = 50"

definition defaultPublishingInterval :: int where
  "defaultPublishingInterval = 1000"

definition maximumPublishingInterval :: int where
  "maximumPublishingInterval = 1000 * 60 * 60 * 24 * 15"

definition minimumMaxKeepAliveCount :: int where
  "minimumMaxKeepAliveCount = 2"

definition maximumMaxKeepAliveCount :: int where
  "maximumMaxKeepAliveCount = 12000"

text \<open>\<open>x || d\<close> on numbers: \<open>d\<close> when \<open>x\<close> is \<open>0\<close>, else \<open>x\<close>.\<close>

definition or_default :: "int \<Rightarrow> int \<Rightarrow> int" where
  "or_default x d = (if x = 0 then d else x)"

definition adjust_publishing_interval :: "int \<Rightarrow> int" where
  "adjust_publishing_interval publishingInterval0 =
     (let p1 = or_default publishingInterval0 defaultPublishingInterval;
          p2 = max p1 minimumPublishingInterval;
          p3 = min p2 maximumPublishingInterval
      in p3)"

definition adjust_maxKeepAliveCount :: "int \<Rightarrow> int" where
  "adjust_maxKeepAliveCount maxKeepAliveCount0 =
     (let k1 = or_default maxKeepAliveCount0 minimumMaxKeepAliveCount;
          k2 = max k1 minimumMaxKeepAliveCount;
          k3 = min k2 maximumMaxKeepAliveCount
      in k3)"

text \<open>
  \<open>Math.ceil(a / b)\<close> for whole numbers \<open>a\<close> and \<open>b \<noteq> 0\<close>. Every caller passes an
  adjusted publishing interval, which is at least 50; at \<open>b = 0\<close> the source computes
  \<open>Infinity\<close>, which the model does not represent.
\<close>

definition ceil_div :: "int \<Rightarrow> int \<Rightarrow> int" where
  "ceil_div a b = - ((- a) div b)"

definition adjust_lifeTimeCount :: "int \<Rightarrow> int \<Rightarrow> int \<Rightarrow> int" where
  "adjust_lifeTimeCount lifeTimeCount0 maxKeepAliveCount0 publishingInterval0 =
     (let l1 = or_default lifeTimeCount0 1;
          l2 = max l1 (maxKeepAliveCount0 * 3);
          minTicks = ceil_div (5 * 1000) publishingInterval0
      in max minTicks l2)"

definition adjust_maxNotificationsPerPublish :: "int \<Rightarrow> int" where
  "adjust_maxNotificationsPerPublish m = (if m \<ge> 0 then m else 0)"

subsection \<open>Counters and timer\<close>

definition emit :: "effect \<Rightarrow> Subscription \<Rightarrow> Subscription" where
  "emit e s = s\<lparr>trace := trace s @ [e]\<rparr>"

definition resetKeepAliveCounter :: "Subscription \<Rightarrow> Subscription" where
  "resetKeepAliveCounter s = s\<lparr>keep_alive_counter := 0\<rparr>"

definition increaseKeepAliveCounter :: "Subscription \<Rightarrow> Subscription" where
  "increaseKeepAliveCounter s = s\<lparr>keep_alive_counter := keep_alive_counter s + 1\<rparr>"

definition keepAliveCounterHasExpired :: "Subscription \<Rightarrow> bool" where
  "keepAliveCounterHasExpired s \<longleftrightarrow> keep_alive_counter s \<ge> maxKeepAliveCount s"

definition resetLifeTimeCounter :: "Subscription \<Rightarrow> Subscription" where
  "resetLifeTimeCounter s = s\<lparr>life_time_counter := 0\<rparr>"

definition increaseLifeTimeCounter :: "Subscription \<Rightarrow> Subscription" where
  "increaseLifeTimeCounter s = s\<lparr>life_time_counter := life_time_counter s + 1\<rparr>"

definition lifeTimeHasExpired :: "Subscription \<Rightarrow> error + bool" where
  "lifeTimeHasExpired s =
     (if \<not> lifeTimeCount s > 0 then Inl AssertionError
      else Inr (life_time_counter s \<ge> lifeTimeCount s))"

definition resetLifeTimeAndKeepAliveCounters :: "Subscription \<Rightarrow> Subscription" where
  "resetLifeTimeAndKeepAliveCounters s = resetKeepAliveCounter (resetLifeTimeCounter s)"

definition stop_timer :: "Subscription \<Rightarrow> Subscription" where
  "stop_timer s =
     (case timerId s of
        Some t \<Rightarrow> (emit ClearInterval s)\<lparr>timerId := None\<rparr>
      | None \<Rightarrow> s)"

definition start_timer :: "Subscription \<Rightarrow> error + Subscription" where
  "start_timer s =
     (if timerId s \<noteq> None then Inl AssertionError
      else let s1 = s\<lparr>keep_alive_counter := maxKeepAliveCount s\<rparr>
           in if \<not> publishingInterval s1 \<ge> minimumPublishingInterval then Inl AssertionError
              else Inr ((emit (SetInterval (publishingInterval s1)) s1)
                          \<lparr>timerId := Some (publishingInterval s1)\<rparr>))"

subsection \<open>modify\<close>

text \<open>
  The request record of \<open>modify\<close>. The source also writes the three defaulted
  \<open>requested...\<close> values back into \<open>param\<close>; the model returns the subscription only.
\<close>

record ModifyParameters =
  requestedPublishingInterval :: int
  requestedLifetimeCount :: int
  requestedMaxKeepAliveCount :: int
  param_maxNotificationsPerPublish :: int
  param_priority :: int

definition modify :: "ModifyParameters \<Rightarrow> Subscription \<Rightarrow> error + Subscription" where
  "modify param s =
     (let s1 = s\<lparr>subscriptionDiagnostics :=
                   (subscriptionDiagnostics s)\<lparr>modifyCount := modifyCount (subscriptionDiagnostics s) + 1\<rparr>\<rparr>;
          requestedPublishingInterval1 = or_default (requestedPublishingInterval param) 0;
          requestedMaxKeepAliveCount1 = or_default (requestedMaxKeepAliveCount param) (maxKeepAliveCount s1);
          requestedLifetimeCount1 = or_default (requestedLifetimeCount param) (lifeTimeCount s1);
          s2 = s1\<lparr>publishingInterval := adjust_publishing_interval requestedPublishingInterval1\<rparr>;
          s3 = s2\<lparr>maxKeepAliveCount := adjust_maxKeepAliveCount requestedMaxKeepAliveCount1\<rparr>;
          s4 = s3\<lparr>lifeTimeCount :=
                   adjust_lifeTimeCount requestedLifetimeCount1 (maxKeepAliveCount s3) (publishingInterval s3)\<rparr>;
          s5 = s4\<lparr>maxNotificationsPerPublish := param_maxNotificationsPerPublish param\<rparr>;
          s6 = s5\<lparr>priority := param_priority param\<rparr>;
          s7 = resetLifeTimeAndKeepAliveCounters s6;
          s8 = stop_timer s7
      in start_timer s8)"

subsection \<open>Sequence numbers and the pending queue\<close>

text \<open>
  Modelled from the spec: \<open>SequenceNumberGenerator\<close> (package node-opcua-secure-channel)
  is a monotonic allocator; \<open>next()\<close> hands out the counter and advances it,
  \<open>future()\<close> previews the next allocation. The generator is its counter; the 32-bit
  bound is not modelled.
\<close>

definition generator_next :: "nat \<Rightarrow> nat \<times> nat" where
  "generator_next c = (c, Suc c)"

definition generator_future :: "nat \<Rightarrow> nat" where
  "generator_future c = c"

definition get_next_sequence_number :: "Subscription \<Rightarrow> nat \<times> Subscription" where
  "get_next_sequence_number s =
     (case sequence_number_generator s of
        Some g \<Rightarrow> (fst (generator_next g), s\<lparr>sequence_number_generator := Some (snd (generator_next g))\<rparr>)
      | None \<Rightarrow> (0, s))"

definition get_future_sequence_number :: "Subscription \<Rightarrow> nat" where
  "get_future_sequence_number s =
     (case sequence_number_generator s of Some g \<Rightarrow> generator_future g | None \<Rightarrow> 0)"

definition addNotificationMessage :: "notification_data list \<Rightarrow> Subscription \<Rightarrow> error + Subscription" where
  "addNotificationMessage notificationData0 s =
     (if \<not> (length notificationData0 = 1 \<or> length notificationData0 = 2) then Inl AssertionError
      else let n = fst (get_next_sequence_number s);
               s1 = snd (get_next_sequence_number s);
               notification_message = \<lparr>sequenceNumber = n, notificationData = notificationData0\<rparr>;
               entry = \<lparr>notification = notification_message,
                        start_tick = publishIntervalCount s1,
                        entry_sequenceNumber = sequenceNumber notification_message\<rparr>
           in Inr ((emit (PushPendingNotification entry) s1)
                     \<lparr>pending_notifications := pending_notifications s1 @ [entry]\<rparr>))"

definition pendingNotificationsCount :: "Subscription \<Rightarrow> nat" where
  "pendingNotificationsCount s = length (pending_notifications s)"

definition hasPendingNotifications :: "Subscription \<Rightarrow> bool" where
  "hasPendingNotifications s \<longleftrightarrow> pendingNotificationsCount s > 0"

definition popNotificationToSend :: "Subscription \<Rightarrow> error + (queued_notification \<times> Subscription)" where
  "popNotificationToSend s =
     (case pending_notifications s of
        [] \<Rightarrow> Inl AssertionError
      | notification_message # rest \<Rightarrow>
          Inr (notification_message,
               s\<lparr>pending_notifications := rest,
                 sent_notifications := sent_notifications s @ [notification_message]\<rparr>))"

subsection \<open>Monitored items\<close>

text \<open>
  \<open>Object.keys\<close> of an object with integer keys lists each key once, in ascending
  order; \<open>delete obj[key]\<close> is \<open>AList.delete\<close>, \<open>obj[key] = v\<close> is \<open>AList.update\<close>.
\<close>

definition Object_keys :: "(nat \<times> 'a) list \<Rightarrow> nat list" where
  "Object_keys obj = sort (remdups (map fst obj))"

definition monitoredItemCount :: "Subscription \<Rightarrow> nat" where
  "monitoredItemCount s = length (Object_keys (monitoredItems s))"

text \<open>Modelled from the spec: the contract of the external monitored item.\<close>

definition item_hasMonitoredItemNotifications :: "MonitoredItem \<Rightarrow> bool" where
  "item_hasMonitoredItemNotifications item \<longleftrightarrow> notification_buffer item \<noteq> []"

definition extractMonitoredItemNotifications :: "MonitoredItem \<Rightarrow> notification_element list \<times> MonitoredItem" where
  "extractMonitoredItemNotifications item = (notification_buffer item, item\<lparr>notification_buffer := []\<rparr>)"

definition item_terminate :: "MonitoredItem \<Rightarrow> MonitoredItem" where
  "item_terminate item = item\<lparr>item_terminated := True\<rparr>"

definition item_dispose :: "MonitoredItem \<Rightarrow> MonitoredItem" where
  "item_dispose item = item\<lparr>item_disposed := True\<rparr>"

definition removeMonitoredItem :: "nat \<Rightarrow> Subscription \<Rightarrow> StatusCode \<times> Subscription" where
  "removeMonitoredItem monitoredItemId s =
     (case map_of (monitoredItems s) monitoredItemId of
        None \<Rightarrow> (BadMonitoredItemIdInvalid, s)
      | Some monitoredItem \<Rightarrow>
          (let item1 = item_terminate monitoredItem;
               item2 = item_dispose item1;
               s1 = emit (EmitRemoveMonitoredItem monitoredItemId item2) s
           in (Good, s1\<lparr>monitoredItems := AList.delete monitoredItemId (monitoredItems s1)\<rparr>)))"

text \<open>The loop of the getter \<open>hasMonitoredItemNotifications\<close> over the keys.\<close>

fun some_item_has_notifications :: "nat list \<Rightarrow> (nat \<times> MonitoredItem) list \<Rightarrow> error + bool" where
  "some_item_has_notifications [] items = Inr False"
| "some_item_has_notifications (key # keys) items =
     (case map_of items key of
        None \<Rightarrow> Inl TypeError
      | Some monitoredItem \<Rightarrow>
          if item_hasMonitoredItemNotifications monitoredItem then Inr True
          else some_item_has_notifications keys items)"

definition hasMonitoredItemNotifications :: "Subscription \<Rightarrow> error + (bool \<times> Subscription)" where
  "hasMonitoredItemNotifications s =
     (if hasMonitoredItemNotifications_cache s then Inr (True, s)
      else case some_item_has_notifications (Object_keys (monitoredItems s)) (monitoredItems s) of
             Inl e \<Rightarrow> Inl e
           | Inr True \<Rightarrow> Inr (True, s\<lparr>hasMonitoredItemNotifications_cache := True\<rparr>)
           | Inr False \<Rightarrow> Inr (False, s))"

subsection \<open>Notification assembly\<close>

text \<open>\<open>shift()\<close> of the dequeue package gives \<open>undefined\<close> on an empty queue.\<close>

definition dequeue_shift :: "'a list \<Rightarrow> 'a option \<times> 'a list" where
  "dequeue_shift q = (case q of [] \<Rightarrow> (None, []) | x # r \<Rightarrow> (Some x, r))"

text \<open>
  The loop \<open>while (n) { chunk.push(queue.shift()); n--; }\<close>. It ends only when \<open>n\<close>
  reaches \<open>0\<close>: started at a negative \<open>n\<close> it never returns.
\<close>

partial_function (option) extract_loop ::
  "int \<Rightarrow> notification_element list \<Rightarrow> notification_element option list
     \<Rightarrow> (notification_element option list \<times> notification_element list) option" where
  "extract_loop n q chunk_monitoredItems =
     (if n = 0 then Some (chunk_monitoredItems, q)
      else extract_loop (n - 1) (snd (dequeue_shift q)) (chunk_monitoredItems @ [fst (dequeue_shift q)]))"

definition extract_notifications_chunk ::
  "notification_element list \<Rightarrow> int
     \<Rightarrow> (notification_element option list \<times> notification_element list) option" where
  "extract_notifications_chunk q maxNotificationsPerPublish0 =
     (let n = (if maxNotificationsPerPublish0 = 0 then int (length q)
               else min (int (length q)) maxNotificationsPerPublish0)
      in extract_loop n q [])"

datatype element_class = MonitoredItemNotification_class | EventFieldList_class

fun filter_instanceof :: "element_class \<Rightarrow> notification_element option \<Rightarrow> bool" where
  "filter_instanceof MonitoredItemNotification_class (Some (MonitoredItemNotification x)) = True"
| "filter_instanceof EventFieldList_class (Some (EventFieldList x)) = True"
| "filter_instanceof c e = False"

definition chunk_notifications :: "notification_element option list \<Rightarrow> notification_data list" where
  "chunk_notifications notifications_chunk =
     (let dataChangedNotificationData =
            filter (filter_instanceof MonitoredItemNotification_class) notifications_chunk;
          eventNotificationListData =
            filter (filter_instanceof EventFieldList_class) notifications_chunk
      in (if length dataChangedNotificationData \<noteq> 0
          then [DataChangeNotification (map the dataChangedNotificationData)] else [])
         @ (if length eventNotificationListData \<noteq> 0
            then [EventNotificationList (map the eventNotificationListData)] else []))"

partial_function (option) collect_loop ::
  "int \<Rightarrow> notification_element list \<Rightarrow> notification_data list list
     \<Rightarrow> (error + notification_data list list) option" where
  "collect_loop m all_notifications notificationsMessage =
     (if length all_notifications > 0
      then Option.bind (extract_notifications_chunk all_notifications m)
             (\<lambda>r. if length (fst r)
                        \<noteq> length (filter (filter_instanceof MonitoredItemNotification_class) (fst r))
                          + length (filter (filter_instanceof EventFieldList_class) (fst r))
                   then Some (Inl AssertionError)
                   else if \<not> (length (chunk_notifications (fst r)) = 1
                              \<or> length (chunk_notifications (fst r)) = 2)
                   then Some (Inl AssertionError)
                   else collect_loop m (snd r) (notificationsMessage @ [chunk_notifications (fst r)]))
      else Some (Inr notificationsMessage))"

text \<open>The loop over the monitored items that drains each notification buffer.\<close>

fun visit_monitored_items ::
  "nat list \<Rightarrow> (nat \<times> MonitoredItem) list \<Rightarrow> notification_element list
     \<Rightarrow> error + ((nat \<times> MonitoredItem) list \<times> notification_element list)" where
  "visit_monitored_items [] items all_notifications = Inr (items, all_notifications)"
| "visit_monitored_items (key # keys) items all_notifications =
     (case map_of items key of
        None \<Rightarrow> Inl TypeError
      | Some monitoredItem \<Rightarrow>
          visit_monitored_items keys
            (AList.update key (snd (extractMonitoredItemNotifications monitoredItem)) items)
            (all_notifications @ fst (extractMonitoredItemNotifications monitoredItem)))"

definition collectNotificationData ::
  "Subscription \<Rightarrow> (error + (notification_data list list \<times> Subscription)) option" where
  "collectNotificationData s =
     (let s1 = s\<lparr>hasMonitoredItemNotifications_cache := False\<rparr>
      in case visit_monitored_items (Object_keys (monitoredItems s1)) (monitoredItems s1) [] of
           Inl e \<Rightarrow> Some (Inl e)
         | Inr (items, all_notifications) \<Rightarrow>
             (case collect_loop (maxNotificationsPerPublish s1) all_notifications [] of
                None \<Rightarrow> None
              | Some (Inl e) \<Rightarrow> Some (Inl e)
              | Some (Inr notificationsMessage) \<Rightarrow>
                  Some (Inr (notificationsMessage, s1\<lparr>monitoredItems := items\<rparr>))))"

fun add_all_messages :: "notification_data list list \<Rightarrow> Subscription \<Rightarrow> error + Subscription" where
  "add_all_messages [] s = Inr s"
| "add_all_messages (notificationMessage # rest) s =
     (case addNotificationMessage notificationMessage s of
        Inl e \<Rightarrow> Inl e
      | Inr s1 \<Rightarrow> add_all_messages rest s1)"

definition harvestMonitoredItems :: "Subscription \<Rightarrow> (error + Subscription) option" where
  "harvestMonitoredItems s =
     (case collectNotificationData s of
        None \<Rightarrow> None
      | Some (Inl e) \<Rightarrow> Some (Inl e)
      | Some (Inr (notificationData0, s1)) \<Rightarrow>
          (case add_all_messages notificationData0 s1 of
             Inl e \<Rightarrow> Some (Inl e)
           | Inr s2 \<Rightarrow> Some (Inr (s2\<lparr>hasMonitoredItemNotifications_cache := False\<rparr>))))"

subsection \<open>Publishing and keep-alive\<close>

text \<open>
  Modelled from the spec: the two sending calls of the publish engine return whether a
  publish request was consumed. \<open>send_notification_message\<close> uses up one queued publish
  request; \<open>send_keep_alive_response\<close> uses one up when one is queued and fails otherwise.
\<close>

definition send_notification_message ::
  "nat \<Rightarrow> nat \<Rightarrow> notification_data list \<Rightarrow> bool \<Rightarrow> bool \<Rightarrow> Subscription \<Rightarrow> Subscription" where
  "send_notification_message sid n nd moreNotifications initial s =
     (emit (SendNotificationMessage sid n nd moreNotifications initial) s)
       \<lparr>publishEngine := (publishEngine s)
          \<lparr>pendingPublishRequestCount := pendingPublishRequestCount (publishEngine s) - 1\<rparr>\<rparr>"

definition send_keep_alive_response :: "nat \<Rightarrow> nat \<Rightarrow> Subscription \<Rightarrow> bool \<times> Subscription" where
  "send_keep_alive_response sid future_sequence_number s =
     (if pendingPublishRequestCount (publishEngine s) > 0
      then (True, (emit (SendKeepAliveResponse sid future_sequence_number) s)
                    \<lparr>publishEngine := (publishEngine s)
                       \<lparr>pendingPublishRequestCount := pendingPublishRequestCount (publishEngine s) - 1\<rparr>\<rparr>)
      else (False, emit (SendKeepAliveResponse sid future_sequence_number) s))"

fun count_notification_message :: "notification_data \<Rightarrow> Subscription \<Rightarrow> Subscription" where
  "count_notification_message (DataChangeNotification xs) s =
     s\<lparr>subscriptionDiagnostics := (subscriptionDiagnostics s)
          \<lparr>dataChangeNotificationsCount := dataChangeNotificationsCount (subscriptionDiagnostics s) + 1\<rparr>\<rparr>"
| "count_notification_message (EventNotificationList xs) s =
     s\<lparr>subscriptionDiagnostics := (subscriptionDiagnostics s)
          \<lparr>eventNotificationsCount := eventNotificationsCount (subscriptionDiagnostics s) + 1\<rparr>\<rparr>"
| "count_notification_message (StatusChangeNotification c) s = s"

definition publish_pending_notifications :: "Subscription \<Rightarrow> error + Subscription" where
  "publish_pending_notifications s =
     (if \<not> pendingPublishRequestCount (publishEngine s) > 0 then Inl AssertionError
      else if \<not> hasPendingNotifications s then Inl AssertionError
      else case popNotificationToSend (emit (Emit ''notification'') s) of
             Inl e \<Rightarrow> Inl e
           | Inr (entry, s1) \<Rightarrow>
               (let notificationMessage = notification entry;
                    s2 = emit (EmitNotificationMessage notificationMessage) s1;
                    s3 = fold count_notification_message (notificationData notificationMessage) s2;
                    moreNotifications = hasPendingNotifications s3;
                    s4 = s3\<lparr>subscriptionDiagnostics := (subscriptionDiagnostics s3)
                            \<lparr>notificationsCount := notificationsCount (subscriptionDiagnostics s3) + 1,
                             publishRequestCount := publishRequestCount (subscriptionDiagnostics s3) + 1\<rparr>\<rparr>;
                    s5 = send_notification_message (subscriptionId s4)
                           (sequenceNumber notificationMessage) (notificationData notificationMessage)
                           moreNotifications False s4;
                    s6 = s5\<lparr>messageSent := True\<rparr>;
                    s7 = s6\<lparr>unacknowledgedMessageCount := unacknowledgedMessageCount s6 + 1\<rparr>;
                    s8 = resetLifeTimeAndKeepAliveCounters s7
                in if state s8 \<noteq> CLOSED
                   then (if \<not> length (notificationData notificationMessage) > 0 then Inl AssertionError
                         else Inr (s8\<lparr>state := NORMAL\<rparr>))
                   else Inr s8))"

definition sendKeepAliveResponse :: "Subscription \<Rightarrow> bool \<times> Subscription" where
  "sendKeepAliveResponse s =
     (let future_sequence_number = get_future_sequence_number s
      in case send_keep_alive_response (subscriptionId s) future_sequence_number s of
           (True, s1) \<Rightarrow>
             (True, (emit (EmitKeepalive future_sequence_number) (s1\<lparr>messageSent := True\<rparr>))
                      \<lparr>state := KEEPALIVE\<rparr>)
         | (False, s1) \<Rightarrow> (False, s1))"

definition process_keepAlive :: "Subscription \<Rightarrow> Subscription" where
  "process_keepAlive s =
     (let s1 = increaseKeepAliveCounter s
      in if keepAliveCounterHasExpired s1
         then (case sendKeepAliveResponse s1 of
                 (True, s2) \<Rightarrow> resetLifeTimeAndKeepAliveCounters s2
               | (False, s2) \<Rightarrow> s2\<lparr>state := LATE\<rparr>)
         else s1)"

text \<open>The part of \<open>process_subscription\<close> after the harvest.\<close>

definition publish_or_keepAlive :: "Subscription \<Rightarrow> error + Subscription" where
  "publish_or_keepAlive s =
     (if hasPendingNotifications s
      then (case publish_pending_notifications s of
              Inl e \<Rightarrow> Inl e
            | Inr s1 \<Rightarrow>
                if state s1 = NORMAL \<and> hasPendingNotifications s1
                then Inr (emit SetImmediateTick s1)
                else Inr s1)
      else Inr (process_keepAlive s))"

definition process_subscription :: "Subscription \<Rightarrow> (error + Subscription) option" where
  "process_subscription s =
     (if \<not> pendingPublishRequestCount (publishEngine s) > 0 then Some (Inl AssertionError)
      else if \<not> publishingEnabled s then Some (Inr (process_keepAlive s))
      else if hasPendingNotifications s then Some (publish_or_keepAlive s)
      else case hasMonitoredItemNotifications s of
             Inl e \<Rightarrow> Some (Inl e)
           | Inr (True, s1) \<Rightarrow>
               (case harvestMonitoredItems s1 of
                  None \<Rightarrow> None
                | Some (Inl e) \<Rightarrow> Some (Inl e)
                | Some (Inr s2) \<Rightarrow> Some (publish_or_keepAlive s2))
           | Inr (False, s1) \<Rightarrow> Some (publish_or_keepAlive s1))"

subsection \<open>terminate and the tick\<close>

text \<open>The loop of \<open>terminate\<close> over the keys, with its assertion on each status.\<close>

fun remove_all_monitored_items :: "nat list \<Rightarrow> Subscription \<Rightarrow> error + Subscription" where
  "remove_all_monitored_items [] s = Inr s"
| "remove_all_monitored_items (key # keys) s =
     (case removeMonitoredItem key s of
        (status, s1) \<Rightarrow>
          if status \<noteq> Good then Inl AssertionError
          else remove_all_monitored_items keys s1)"

definition terminate :: "Subscription \<Rightarrow> error + Subscription" where
  "terminate s =
     (if state s = CLOSED then Inr s
      else let s1 = stop_timer s
           in case remove_all_monitored_items (Object_keys (monitoredItems s1)) s1 of
                Inl e \<Rightarrow> Inl e
              | Inr s2 \<Rightarrow>
                  if \<not> monitoredItemCount s2 = 0 then Inl AssertionError
                  else let s3 = (if has_session s2 then emit UnexposeSubscriptionDiagnostics s2 else s2);
                           s4 = s3\<lparr>state := CLOSED\<rparr>;
                           s5 = emit (Emit ''terminated'') s4
                       in Inr (emit OnCloseSubscription s5))"

text \<open>The part of \<open>_tick\<close> after the expiration check.\<close>

definition tick_publish :: "Subscription \<Rightarrow> (error + Subscription) option" where
  "tick_publish s =
     (if pendingPublishRequestCount (publishEngine s) = 0
      then (if hasPendingNotifications s then Some (Inr (s\<lparr>state := LATE\<rparr>))
            else case hasMonitoredItemNotifications s of
                   Inl e \<Rightarrow> Some (Inl e)
                 | Inr (True, s1) \<Rightarrow> Some (Inr (s1\<lparr>state := LATE\<rparr>))
                 | Inr (False, s1) \<Rightarrow> Some (Inr (process_keepAlive s1)))
      else (if hasPendingNotifications s then process_subscription s
            else case hasMonitoredItemNotifications s of
                   Inl e \<Rightarrow> Some (Inl e)
                 | Inr (True, s1) \<Rightarrow> process_subscription s1
                 | Inr (False, s1) \<Rightarrow> Some (Inr (process_keepAlive s1))))"

definition tick :: "Subscription \<Rightarrow> (error + Subscription) option" where
  "tick s =
     (if state s = CLOSED then Some (Inr s)
      else let s1 = discardOldSentNotifications s;
               s2 = (if has_on_tick (publishEngine s1) then emit OnTick s1 else s1);
               s3 = s2\<lparr>publishIntervalCount := publishIntervalCount s2 + 1\<rparr>;
               s4 = increaseLifeTimeCounter s3
           in case lifeTimeHasExpired s4 of
                Inl e \<Rightarrow> Some (Inl e)
              | Inr True \<Rightarrow>
                  (case addNotificationMessage [StatusChangeNotification BadTimeout]
                          (emit (Emit ''expired'') s4) of
                     Inl e \<Rightarrow> Some (Inl e)
                   | Inr s5 \<Rightarrow> Some (terminate s5))
              | Inr False \<Rightarrow> tick_publish s4)"

section \<open>Acknowledgeable conditions (alarms and conditions, acknowledgeable condition base)\<close>

subsection \<open>Data model\<close>

datatype NodeId = NullNodeId | NodeId nat

datatype LocalizedText = LocalizedText string

definition coerceLocalizedText :: "string \<Rightarrow> LocalizedText" where
  "coerceLocalizedText txt = LocalizedText txt"

text \<open>\<open>new Variant({dataType, value})\<close> for the two data types the file builds.\<close>

datatype Variant = Variant_Boolean bool | Variant_LocalizedText LocalizedText

text \<open>The truth value JavaScript gives to \<open>variant.value\<close>: an object is truthy.\<close>

fun truthy :: "Variant \<Rightarrow> bool" where
  "truthy (Variant_Boolean b) = b"
| "truthy (Variant_LocalizedText t) = True"

record UATwoStateVariable =
  trueState :: string
  falseState :: string
  node_value :: bool

datatype UANode = TwoStateNode UATwoStateVariable | OtherNode

text \<open>
  A snapshot holds \<open>_map\<close> (key to variant) and \<open>_node_index\<close> (key to node). The nodes
  are objects of the condition shared by all its snapshots, so \<open>_node_index\<close> maps a
  key to the address of the node in the store \<open>nodes\<close> of the condition.

  Modelled from the spec: the constructor and the accessors of \<open>ConditionSnapshot\<close>
  (\<open>./condition\<close>) are not in this file; a snapshot carries \<open>branchId\<close> (null for the
  current branch), \<open>eventId\<close> (bytes or null), \<open>comment\<close> and \<open>retain\<close>.
\<close>

record ConditionSnapshot =
  snapshot_map :: "string \<rightharpoonup> Variant"
  node_index :: "string \<rightharpoonup> nat"
  branchId :: NodeId
  eventId :: "nat list option"
  comment :: LocalizedText
  retain :: bool

text \<open>
  The log of a condition, in program order: \<open>value_changed\<close> emitted by a snapshot,
  events raised with \<open>raiseEvent\<close> (type name, message if any, event id, status,
  comment), \<open>raiseNewBranchState\<close>, and the events \<open>acknowledged\<close> and \<open>confirmed\<close>
  emitted by the condition.
\<close>

datatype condition_effect =
    ValueChanged "nat option" Variant
  | RaiseEvent string "string option" "nat list option" StatusCode LocalizedText
  | RaiseNewBranchState NodeId
  | ConditionEmit string "nat list option" LocalizedText NodeId

record Condition =
  nodes :: "nat \<rightharpoonup> UANode"
  ackedState :: "nat option"
  confirmedState :: "nat option"
  branches :: "ConditionSnapshot list"
  condition_log :: "condition_effect list"

subsection \<open>Two-state variables of a snapshot\<close>

text \<open>
  \<open>ConditionSnapshot.normalizeName\<close> is defined in \<open>./condition\<close>; the functions below
  take it as the parameter \<open>normalizeName\<close>.
\<close>

definition isCurrentBranch :: "ConditionSnapshot \<Rightarrow> bool" where
  "isCurrentBranch b \<longleftrightarrow> branchId b = NullNodeId"

text \<open>
  Modelled from the spec: \<open>UATwoStateVariable.setValue\<close> (propagate the boolean to the
  live node).
\<close>

definition setValue :: "bool \<Rightarrow> UATwoStateVariable \<Rightarrow> UATwoStateVariable" where
  "setValue v n = n\<lparr>node_value := v\<rparr>"

definition log_effect :: "condition_effect \<Rightarrow> Condition \<Rightarrow> Condition" where
  "log_effect e c = c\<lparr>condition_log := condition_log c @ [e]\<rparr>"

definition set_twoStateVariable ::
  "(string \<Rightarrow> string) \<Rightarrow> string \<Rightarrow> bool \<Rightarrow> Condition \<times> ConditionSnapshot
     \<Rightarrow> error + (Condition \<times> ConditionSnapshot)" where
  "set_twoStateVariable normalizeName varName v cb =
     (let c = fst cb; b = snd cb;
          hrKey = normalizeName varName;
          idKey = normalizeName varName @ ''.id'';
          variant = Variant_Boolean v;
          b1 = b\<lparr>snapshot_map := (snapshot_map b)(idKey \<mapsto> variant)\<rparr>
      in case node_index b1 hrKey of
           None \<Rightarrow> Inl AssertionError
         | Some a \<Rightarrow>
             (case nodes c a of
                Some (TwoStateNode twoStateNode) \<Rightarrow>
                  (let txt = (if v then trueState twoStateNode else falseState twoStateNode);
                       hrValue = Variant_LocalizedText (coerceLocalizedText txt);
                       b2 = b1\<lparr>snapshot_map := (snapshot_map b1)(hrKey \<mapsto> hrValue)\<rparr>;
                       node = node_index b2 idKey;
                       c1 = (if isCurrentBranch b2
                             then c\<lparr>nodes := (nodes c)(a \<mapsto> TwoStateNode (setValue v twoStateNode))\<rparr>
                             else c)
                   in Inr (log_effect (ValueChanged node variant) c1, b2))
              | _ \<Rightarrow> Inl AssertionError))"

definition get_twoStateVariable ::
  "(string \<Rightarrow> string) \<Rightarrow> string \<Rightarrow> ConditionSnapshot \<Rightarrow> error + Variant" where
  "get_twoStateVariable normalizeName varName b =
     (case snapshot_map b (normalizeName varName @ ''.id'') of
        None \<Rightarrow> Inl Error
      | Some variant \<Rightarrow> Inr variant)"

definition getAckedState ::
  "(string \<Rightarrow> string) \<Rightarrow> Condition \<times> ConditionSnapshot \<Rightarrow> error + Variant" where
  "getAckedState normalizeName cb =
     (if ackedState (fst cb) = None then Inl Error
      else get_twoStateVariable normalizeName ''ackedState'' (snd cb))"

text \<open>The module-level function \<open>_setAckedState\<close>.\<close>

definition private_setAckedState ::
  "(string \<Rightarrow> string) \<Rightarrow> Condition \<times> ConditionSnapshot \<Rightarrow> bool
     \<Rightarrow> error + (StatusCode \<times> Condition \<times> ConditionSnapshot)" where
  "private_setAckedState normalizeName cb requestedAckedState =
     (case getAckedState normalizeName cb of
        Inl e \<Rightarrow> Inl e
      | Inr acked \<Rightarrow>
          if truthy acked \<and> requestedAckedState
          then Inr (BadConditionBranchAlreadyAcked, cb)
          else (case set_twoStateVariable normalizeName ''ackedState'' requestedAckedState cb of
                  Inl e \<Rightarrow> Inl e
                | Inr cb1 \<Rightarrow> Inr (Good, cb1)))"

definition getConfirmedState ::
  "(string \<Rightarrow> string) \<Rightarrow> Condition \<times> ConditionSnapshot \<Rightarrow> error + Variant" where
  "getConfirmedState normalizeName cb =
     (if confirmedState (fst cb) = None then Inl AssertionError
      else get_twoStateVariable normalizeName ''confirmedState'' (snd cb))"

definition setConfirmedState ::
  "(string \<Rightarrow> string) \<Rightarrow> bool \<Rightarrow> Condition \<times> ConditionSnapshot
     \<Rightarrow> error + (Condition \<times> ConditionSnapshot)" where
  "setConfirmedState normalizeName v cb =
     (if confirmedState (fst cb) = None then Inl AssertionError
      else set_twoStateVariable normalizeName ''confirmedState'' v cb)"

text \<open>
  Modelled from the spec: \<open>setRetain\<close>, \<open>setComment\<close>, \<open>getEventId\<close>, \<open>getComment\<close>,
  \<open>raiseNewBranchState\<close>, \<open>raiseEvent\<close> and
  \<open>_raiseAuditConditionCommentEvent(message, eventId, comment)\<close> belong to
  \<open>./condition\<close>. A snapshot has one event id, and the spec names no operation that
  changes it.
\<close>

definition setRetain :: "bool \<Rightarrow> Condition \<times> ConditionSnapshot \<Rightarrow> Condition \<times> ConditionSnapshot" where
  "setRetain r cb = (fst cb, (snd cb)\<lparr>retain := r\<rparr>)"

definition setComment :: "LocalizedText \<Rightarrow> Condition \<times> ConditionSnapshot \<Rightarrow> Condition \<times> ConditionSnapshot" where
  "setComment t cb = (fst cb, (snd cb)\<lparr>comment := t\<rparr>)"

definition getEventId :: "ConditionSnapshot \<Rightarrow> nat list option" where
  "getEventId b = eventId b"

definition getComment :: "ConditionSnapshot \<Rightarrow> LocalizedText" where
  "getComment b = comment b"

text \<open>
  Modelled from the spec: \<open>raiseNewBranchState\<close> publishes the state of the branch. By
  the lifecycle of a snapshot (section 3) a branch is destroyed when it is confirmed and
  no longer retained; the condition keeps its one current branch. A branch is identified
  by its branch id.
\<close>

definition branch_confirmed :: "(string \<Rightarrow> string) \<Rightarrow> Condition \<times> ConditionSnapshot \<Rightarrow> bool" where
  "branch_confirmed normalizeName cb =
     (case getConfirmedState normalizeName cb of
        Inl e \<Rightarrow> False
      | Inr confirmed \<Rightarrow> truthy confirmed)"

definition deleteBranch :: "ConditionSnapshot \<Rightarrow> Condition \<Rightarrow> Condition" where
  "deleteBranch b c = c\<lparr>branches := filter (\<lambda>x. branchId x \<noteq> branchId b) (branches c)\<rparr>"

definition raiseNewBranchState ::
  "(string \<Rightarrow> string) \<Rightarrow> Condition \<times> ConditionSnapshot \<Rightarrow> Condition \<times> ConditionSnapshot" where
  "raiseNewBranchState normalizeName cb =
     (let c1 = log_effect (RaiseNewBranchState (branchId (snd cb))) (fst cb)
      in if \<not> isCurrentBranch (snd cb) \<and> branch_confirmed normalizeName cb \<and> \<not> retain (snd cb)
         then (deleteBranch (snd cb) c1, snd cb)
         else (c1, snd cb))"

definition raiseEvent ::
  "string \<Rightarrow> string option \<Rightarrow> nat list option \<Rightarrow> StatusCode \<Rightarrow> LocalizedText
     \<Rightarrow> Condition \<times> ConditionSnapshot \<Rightarrow> Condition \<times> ConditionSnapshot" where
  "raiseEvent eventType msg eid status txt cb =
     (log_effect (RaiseEvent eventType msg eid status txt) (fst cb), snd cb)"


definition raiseAuditConditionAcknowledgeEvent ::
  "Condition \<times> ConditionSnapshot \<Rightarrow> Condition \<times> ConditionSnapshot" where
  "raiseAuditConditionAcknowledgeEvent cb =
     raiseEvent ''AuditConditionAcknowledgeEventType'' None
       (getEventId (snd cb)) Good (getComment (snd cb)) cb"


definition condition_emit ::
  "string \<Rightarrow> nat list option \<Rightarrow> LocalizedText
     \<Rightarrow> Condition \<times> ConditionSnapshot \<Rightarrow> Condition \<times> ConditionSnapshot" where
  "condition_emit name eid txt cb =
     (log_effect (ConditionEmit name eid txt (branchId (snd cb))) (fst cb), snd cb)"

subsection \<open>Acknowledge and confirm\<close>

text \<open>
  \<open>_acknowledge_branch\<close> returns the status of \<open>_setAckedState\<close> when that is not
  \<open>Good\<close>, and nothing (\<open>undefined\<close>, here \<open>None\<close>) at its end.
\<close>

definition acknowledge_branch ::
  "(string \<Rightarrow> string) \<Rightarrow> nat list option \<Rightarrow> LocalizedText \<Rightarrow> string
     \<Rightarrow> Condition \<times> ConditionSnapshot
     \<Rightarrow> error + (StatusCode option \<times> Condition \<times> ConditionSnapshot)" where
  "acknowledge_branch normalizeName eid txt message cb =
     (case (if confirmedState (fst cb) \<noteq> None
            then (case setConfirmedState normalizeName False cb of
                    Inl e \<Rightarrow> Inl e
                  | Inr cb1 \<Rightarrow> Inr (setRetain True cb1))
            else Inr (setRetain False cb)) of
        Inl e \<Rightarrow> Inl e
      | Inr cb2 \<Rightarrow>
          (case private_setAckedState normalizeName cb2 True of
             Inl e \<Rightarrow> Inl e
           | Inr (statusCode, cb3) \<Rightarrow>
               if statusCode \<noteq> Good then Inr (Some statusCode, cb3)
               else let cb4 = setComment txt cb3;
                        cb5 = raiseNewBranchState normalizeName cb4;
                        cb6 = raiseAuditConditionAcknowledgeEvent cb5;
                        cb7 = condition_emit ''acknowledged'' eid txt cb6
                    in Inr (None, cb7)))"


text \<open>
  Modelled from the spec: \<open>UAConditionBase.with_condition_method\<close> (\<open>./condition\<close>)
  resolves the branch from the event id, runs the handler on it and answers with the
  status the handler returns. The branches of the condition are the list \<open>branches\<close>.
  The handler works on the branch object itself: the model hands it the branch and puts
  the branch back in its place afterwards, unless the branch has been destroyed
  meanwhile. The spec does not say what happens when no branch has the event id, and
  the model raises there.
\<close>

fun findBranchForEventId :: "ConditionSnapshot list \<Rightarrow> nat list option \<Rightarrow> nat option" where
  "findBranchForEventId [] eid = None"
| "findBranchForEventId (b # bs) eid =
     (if eventId b = eid then Some 0
      else map_option Suc (findBranchForEventId bs eid))"

definition with_condition_method ::
  "nat list option \<Rightarrow> LocalizedText
     \<Rightarrow> (nat list option \<Rightarrow> LocalizedText \<Rightarrow> Condition \<times> ConditionSnapshot
           \<Rightarrow> error + (StatusCode \<times> Condition \<times> ConditionSnapshot))
     \<Rightarrow> Condition \<Rightarrow> error + (StatusCode \<times> Condition)" where
  "with_condition_method eid txt inner_func c =
     (case findBranchForEventId (branches c) eid of
        None \<Rightarrow> Inl Error
      | Some i \<Rightarrow>
          (case inner_func eid txt (c, branches c ! i) of
             Inl e \<Rightarrow> Inl e
           | Inr (statusCode, c1, b1) \<Rightarrow>
               Inr (statusCode,
                    if branchId b1 \<in> branchId ` set (branches c1)
                    then c1\<lparr>branches := (branches c1)[i := b1]\<rparr>
                    else c1)))"

definition acknowledge_method ::
  "(string \<Rightarrow> string) \<Rightarrow> nat list option \<Rightarrow> LocalizedText \<Rightarrow> Condition
     \<Rightarrow> error + (StatusCode \<times> Condition)" where
  "acknowledge_method normalizeName eid txt c =
     with_condition_method eid txt
       (\<lambda>eid1 txt1 cb.
          case acknowledge_branch normalizeName eid1 txt1 ''Method/Acknowledged'' cb of
            Inl e \<Rightarrow> Inl e
          | Inr (r, cb1) \<Rightarrow> Inr (Good, cb1))
       c"


section \<open>Example states\<close>

text \<open>
  A subscription as the constructor leaves it for \<open>publishingInterval = 100\<close>,
  \<open>maxKeepAliveCount = 3\<close>, \<open>lifeTimeCount = 9\<close> (the adjustment gives
  \<open>max 9 (max 9 50) = 50\<close> ticks), with no monitored item and no publish request.
\<close>

definition example_subscription :: Subscription where
  "example_subscription =
     \<lparr>subscriptionId = 1, priority = 0, publishingInterval = 100, maxKeepAliveCount = 3,
      lifeTimeCount = 50, maxNotificationsPerPublish = 0, publishingEnabled = True,
      messageSent = False, keep_alive_counter = 3, life_time_counter = 0,
      publishIntervalCount = 0, unacknowledgedMessageCount = 0, state = CREATING,
      pending_notifications = [], sent_notifications = [],
      sequence_number_generator = Some 1, monitoredItems = [],
      hasMonitoredItemNotifications_cache = False, timerId = Some 100,
      publishEngine = \<lparr>pendingPublishRequestCount = 0, has_on_tick = False\<rparr>,
      has_session = False,
      subscriptionDiagnostics =
        \<lparr>modifyCount = 0, enableCount = 0, disableCount = 0, notificationsCount = 0,
         publishRequestCount = 0, dataChangeNotificationsCount = 0,
         eventNotificationsCount = 0\<rparr>,
      trace = []\<rparr>"

text \<open>The queue entry of the message with sequence number \<open>n\<close>, sent at tick \<open>n\<close>.\<close>

definition sent_entry :: "nat \<Rightarrow> queued_notification" where
  "sent_entry n =
     \<lparr>notification =
        \<lparr>sequenceNumber = n,
         notificationData = [DataChangeNotification [MonitoredItemNotification n]]\<rparr>,
      start_tick = int n, entry_sequenceNumber = n\<rparr>"

definition subscription_with_three_sent :: Subscription where
  "subscription_with_three_sent =
     example_subscription\<lparr>sent_notifications := [sent_entry 1, sent_entry 2, sent_entry 3],
                           unacknowledgedMessageCount := 3\<rparr>"

section \<open>The formulas of the specification\<close>

text \<open>\<open>clamp(x, lo, hi)\<close> as the specification writes it.\<close>

definition clamp :: "int \<Rightarrow> int \<Rightarrow> int \<Rightarrow> int" where
  "clamp x lo hi = min (max x lo) hi"

text \<open>
  The parameter formulas of the specification (section 4.1), read on the request \<open>p\<close>
  and the subscription \<open>s'\<close> that \<open>modify\<close> returns, with both counters at zero.
\<close>

definition modify_postcondition_of_spec :: "ModifyParameters \<Rightarrow> Subscription \<Rightarrow> bool" where
  "modify_postcondition_of_spec p s' \<longleftrightarrow>
     publishingInterval s' =
       clamp (or_default (requestedPublishingInterval p) 1000) 50 (15 * 24 * 3600 * 1000)
   \<and> maxKeepAliveCount s' = clamp (or_default (requestedMaxKeepAliveCount p) 2) 2 12000
   \<and> lifeTimeCount s' =
       max (or_default (requestedLifetimeCount p) 1)
         (max (3 * maxKeepAliveCount s') \<lceil>5000 / real_of_int (publishingInterval s')\<rceil>)
   \<and> maxNotificationsPerPublish s' = max (param_maxNotificationsPerPublish p) 0
   \<and> life_time_counter s' = 0
   \<and> keep_alive_counter s' = 0"

definition modify_request_no_change :: ModifyParameters where
  "modify_request_no_change =
     \<lparr>requestedPublishingInterval = 1000, requestedLifetimeCount = 0,
      requestedMaxKeepAliveCount = 0, param_maxNotificationsPerPublish = 0,
      param_priority = 0\<rparr>"

definition example_subscription_modified :: Subscription where
  "example_subscription_modified =
     example_subscription
       \<lparr>publishingInterval := 1000, timerId := Some 1000,
        subscriptionDiagnostics :=
          (subscriptionDiagnostics example_subscription)\<lparr>modifyCount := 1\<rparr>,
        trace := [ClearInterval, SetInterval 1000]\<rparr>"

text \<open>
  Chunking as the specification words it: split the list, in order, into chunks of at
  most \<open>m\<close> entries, \<open>m = 0\<close> giving one chunk with all entries.
\<close>

function chunks_of :: "nat \<Rightarrow> 'a list \<Rightarrow> 'a list list" where
  "chunks_of m xs =
     (if xs = [] then []
      else if m = 0 then [xs]
      else take m xs # chunks_of m (drop m xs))"
  by pat_completeness auto
termination
  by (relation "measure (\<lambda>(m, xs). length xs)") auto

declare chunks_of.simps [simp del]

fun is_data_change :: "notification_element \<Rightarrow> bool" where
  "is_data_change (MonitoredItemNotification x) = True"
| "is_data_change (EventFieldList x) = False"

fun is_event :: "notification_element \<Rightarrow> bool" where
  "is_event (MonitoredItemNotification x) = False"
| "is_event (EventFieldList x) = True"

text \<open>
  The notification objects of a chunk as the specification words them: a
  \<open>DataChangeNotification\<close> with the data-change entries of the chunk if there are any,
  then an \<open>EventNotificationList\<close> with its event entries if there are any.
\<close>

definition chunk_objects :: "notification_element list \<Rightarrow> notification_data list" where
  "chunk_objects c =
     (if filter is_data_change c = [] then [] else [DataChangeNotification (filter is_data_change c)])
     @ (if filter is_event c = [] then [] else [EventNotificationList (filter is_event c)])"

text \<open>The (data-change, event) payload sizes of the notification objects of a message.\<close>

fun payload_sizes :: "notification_data list \<Rightarrow> nat \<times> nat" where
  "payload_sizes [] = (0, 0)"
| "payload_sizes (DataChangeNotification xs # r) = (length xs + fst (payload_sizes r), snd (payload_sizes r))"
| "payload_sizes (EventNotificationList xs # r) = (fst (payload_sizes r), length xs + snd (payload_sizes r))"
| "payload_sizes (StatusChangeNotification c # r) = payload_sizes r"

text \<open>
  The queue entries of the messages \<open>msgs\<close> numbered from \<open>g\<close> on, all created at
  tick \<open>t\<close>.
\<close>

fun numbered_entries :: "nat \<Rightarrow> int \<Rightarrow> notification_data list list \<Rightarrow> queued_notification list" where
  "numbered_entries g t [] = []"
| "numbered_entries g t (nd # msgs) =
     \<lparr>notification = \<lparr>sequenceNumber = g, notificationData = nd\<rparr>,
      start_tick = t, entry_sequenceNumber = g\<rparr>
     # numbered_entries (Suc g) t msgs"

text \<open>
  Scenario S4: two monitored items whose buffers hold five data changes followed by
  three events, and \<open>maxNotificationsPerPublish = 2\<close>.
\<close>

definition subscription_S4 :: Subscription where
  "subscription_S4 =
     example_subscription
       \<lparr>maxNotificationsPerPublish := 2,
        monitoredItems :=
          [(1, \<lparr>notification_buffer =
                   [MonitoredItemNotification 1, MonitoredItemNotification 2, MonitoredItemNotification 3],
                 item_terminated = False, item_disposed = False\<rparr>),
           (2, \<lparr>notification_buffer =
                   [MonitoredItemNotification 4, MonitoredItemNotification 5,
                    EventFieldList 6, EventFieldList 7, EventFieldList 8],
                 item_terminated = False, item_disposed = False\<rparr>)]\<rparr>"

definition drained_items_S4 :: "(nat \<times> MonitoredItem) list" where
  "drained_items_S4 =
     [(1, \<lparr>notification_buffer = [], item_terminated = False, item_disposed = False\<rparr>),
      (2, \<lparr>notification_buffer = [], item_terminated = False, item_disposed = False\<rparr>)]"

text \<open>Five data changes followed by three events, and the messages the code makes of them.\<close>

definition harvest_of :: "nat \<Rightarrow> nat \<Rightarrow> nat \<Rightarrow> nat \<Rightarrow> nat \<Rightarrow> nat \<Rightarrow> nat \<Rightarrow> nat \<Rightarrow> notification_element list" where
  "harvest_of d1 d2 d3 d4 d5 e1 e2 e3 =
     [MonitoredItemNotification d1, MonitoredItemNotification d2, MonitoredItemNotification d3,
      MonitoredItemNotification d4, MonitoredItemNotification d5,
      EventFieldList e1, EventFieldList e2, EventFieldList e3]"

definition messages_of :: "nat \<Rightarrow> nat \<Rightarrow> nat \<Rightarrow> nat \<Rightarrow> nat \<Rightarrow> nat \<Rightarrow> nat \<Rightarrow> nat \<Rightarrow> notification_data list list" where
  "messages_of d1 d2 d3 d4 d5 e1 e2 e3 =
     [[DataChangeNotification [MonitoredItemNotification d1, MonitoredItemNotification d2]],
      [DataChangeNotification [MonitoredItemNotification d3, MonitoredItemNotification d4]],
      [DataChangeNotification [MonitoredItemNotification d5], EventNotificationList [EventFieldList e1]],
      [EventNotificationList [EventFieldList e2, EventFieldList e3]]]"

definition harvest_S4 :: "notification_element list" where
  "harvest_S4 = harvest_of 1 2 3 4 5 6 7 8"

definition messages_S4 :: "notification_data list list" where
  "messages_S4 = messages_of 1 2 3 4 5 6 7 8"

text \<open>
  The \<open>removeMonitoredItem\<close> events of \<open>terminate\<close>: one per key, in key order, each
  with the item after \<open>terminate()\<close> and \<open>dispose()\<close>.
\<close>

definition removal_events :: "nat list \<Rightarrow> (nat \<times> MonitoredItem) list \<Rightarrow> effect list" where
  "removal_events keys items =
     concat (map (\<lambda>key. case map_of items key of
                           None \<Rightarrow> []
                         | Some item \<Rightarrow>
                             [EmitRemoveMonitoredItem key (item_dispose (item_terminate item))])
                 keys)"

text \<open>
  The queue entry of the \<open>StatusChangeNotification(BadTimeout)\<close> message that the
  expiring tick of \<open>s\<close> enqueues.
\<close>

definition timeout_entry :: "Subscription \<Rightarrow> queued_notification" where
  "timeout_entry s =
     \<lparr>notification =
        \<lparr>sequenceNumber = get_future_sequence_number s,
         notificationData = [StatusChangeNotification BadTimeout]\<rparr>,
      start_tick = publishIntervalCount s + 1,
      entry_sequenceNumber = get_future_sequence_number s\<rparr>"

text \<open>\<open>a\<close> occurs in the log, and \<open>b\<close> occurs after the first \<open>a\<close>.\<close>

definition occurs_before :: "'a \<Rightarrow> 'a \<Rightarrow> 'a list \<Rightarrow> bool" where
  "occurs_before a b xs \<longleftrightarrow> a \<in> set xs \<and> b \<in> set (tl (dropWhile (\<lambda>x. x \<noteq> a) xs))"

text \<open>
  Scenario S2 one tick before expiration: 49 of the 50 ticks of the lifetime have passed
  without a publish request; the subscription has one monitored item.
\<close>

definition subscription_about_to_expire :: Subscription where
  "subscription_about_to_expire =
     example_subscription
       \<lparr>life_time_counter := 49, publishIntervalCount := 49, state := LATE,
        monitoredItems :=
          [(7, \<lparr>notification_buffer = [MonitoredItemNotification 1],
                 item_terminated = False, item_disposed = False\<rparr>)]\<rparr>"

definition subscription_expired :: Subscription where
  "subscription_expired =
     subscription_about_to_expire
       \<lparr>life_time_counter := 50, publishIntervalCount := 50, state := CLOSED,
        monitoredItems := [], timerId := None,
        sequence_number_generator := Some 2,
        pending_notifications := [timeout_entry subscription_about_to_expire],
        trace :=
          [Emit ''expired'',
           PushPendingNotification (timeout_entry subscription_about_to_expire),
           ClearInterval,
           EmitRemoveMonitoredItem 7
             \<lparr>notification_buffer = [MonitoredItemNotification 1],
              item_terminated = True, item_disposed = True\<rparr>,
           Emit ''terminated'',
           OnCloseSubscription]\<rparr>"

text \<open>
  Example conditions. The acked-state node lives at address 0 and the confirmed-state
  node at address 1, with the labels \<open>instantiate\<close> installs; the names are used as
  keys as they are written.
\<close>

definition ackedState_node :: UATwoStateVariable where
  "ackedState_node = \<lparr>trueState = ''Acknowledged'', falseState = ''Unacknowledged'', node_value = False\<rparr>"

definition confirmedState_node :: UATwoStateVariable where
  "confirmedState_node = \<lparr>trueState = ''Confirmed'', falseState = ''Unconfirmed'', node_value = False\<rparr>"

text \<open>A historical branch (branch id 5) of event 10-20-30, neither acknowledged nor confirmed.\<close>

definition example_branch :: ConditionSnapshot where
  "example_branch =
     \<lparr>snapshot_map =
        [''ackedState.id'' \<mapsto> Variant_Boolean False,
         ''ackedState'' \<mapsto> Variant_LocalizedText (LocalizedText ''Unacknowledged''),
         ''confirmedState.id'' \<mapsto> Variant_Boolean False,
         ''confirmedState'' \<mapsto> Variant_LocalizedText (LocalizedText ''Unconfirmed'')],
      node_index = [''ackedState'' \<mapsto> 0, ''confirmedState'' \<mapsto> 1],
      branchId = NodeId 5,
      eventId = Some [10, 20, 30],
      comment = LocalizedText [],
      retain = True\<rparr>"

definition condition_with_confirm :: Condition where
  "condition_with_confirm =
     \<lparr>nodes = [0 \<mapsto> TwoStateNode ackedState_node, 1 \<mapsto> TwoStateNode confirmedState_node],
      ackedState = Some 0,
      confirmedState = Some 1,
      branches = [example_branch],
      condition_log = []\<rparr>"

definition condition_without_confirm :: Condition where
  "condition_without_confirm =
     \<lparr>nodes = [0 \<mapsto> TwoStateNode ackedState_node],
      ackedState = Some 0,
      confirmedState = None,
      branches = [example_branch\<lparr>node_index := [''ackedState'' \<mapsto> 0]\<rparr>],
      condition_log = []\<rparr>"

text \<open>The number of events of a type raised in a log.\<close>

fun raised_count :: "string \<Rightarrow> condition_effect list \<Rightarrow> nat" where
  "raised_count t [] = 0"
| "raised_count t (RaiseEvent t' m e s c # rest) = (if t' = t then 1 else 0) + raised_count t rest"
| "raised_count t (x # rest) = raised_count t rest"

text \<open>The example branch once acknowledged and confirmed: nothing is left to retain.\<close>

definition settled_branch :: ConditionSnapshot where
  "settled_branch =
     example_branch
       \<lparr>snapshot_map :=
          [''ackedState.id'' \<mapsto> Variant_Boolean True,
           ''ackedState'' \<mapsto> Variant_LocalizedText (LocalizedText ''Acknowledged''),
           ''confirmedState.id'' \<mapsto> Variant_Boolean True,
           ''confirmedState'' \<mapsto> Variant_LocalizedText (LocalizedText ''Confirmed'')],
        retain := False\<rparr>"



text \<open>
  The condition without ConfirmedState after the Acknowledge method has run once on
  event 10-20-30 with the comment \<open>ok\<close>.
\<close>

definition condition_acknowledged :: Condition where
  "condition_acknowledged =
     condition_without_confirm
       \<lparr>branches :=
          [example_branch
             \<lparr>node_index := [''ackedState'' \<mapsto> 0],
              snapshot_map :=
                (snapshot_map example_branch)
                  (''ackedState.id'' \<mapsto> Variant_Boolean True,
                   ''ackedState'' \<mapsto> Variant_LocalizedText (LocalizedText ''Acknowledged'')),
              retain := False,
              comment := LocalizedText ''ok''\<rparr>],
        condition_log :=
          [ValueChanged None (Variant_Boolean True),
           RaiseNewBranchState (NodeId 5),
           RaiseEvent ''AuditConditionAcknowledgeEventType'' None (Some [10, 20, 30]) Good
             (LocalizedText ''ok''),
           ConditionEmit ''acknowledged'' (Some [10, 20, 30]) (LocalizedText ''ok'') (NodeId 5)]\<rparr>"



section \<open>Verification\<close>

subsection \<open>Acknowledgement of sent notifications\<close>

lemma find_index_loop_miss:
  "\<forall>e\<in>set es. entry_sequenceNumber e \<noteq> n \<Longrightarrow> find_index_loop n es k f = f"
  by (induction es arbitrary: k f) auto

lemma find_index_loop_hit:
  "\<exists>e\<in>set es. entry_sequenceNumber e = n \<Longrightarrow>
   \<exists>i<length es. entry_sequenceNumber (es ! i) = n
      \<and> (\<forall>j<length es. i < j \<longrightarrow> entry_sequenceNumber (es ! j) \<noteq> n)
      \<and> find_index_loop n es k f = int (k + i)"
proof (induction es arbitrary: k f)
  case Nil
  then show ?case by simp
next
  case (Cons e es)
  show ?case
  proof (cases "\<exists>x\<in>set es. entry_sequenceNumber x = n")
    case True
    from Cons.IH [OF True, of "Suc k" "if entry_sequenceNumber e = n then int k else f"]
    obtain i where i: "i < length es" "entry_sequenceNumber (es ! i) = n"
      "\<forall>j<length es. i < j \<longrightarrow> entry_sequenceNumber (es ! j) \<noteq> n"
      "find_index_loop n es (Suc k) (if entry_sequenceNumber e = n then int k else f) = int (Suc k + i)"
      by blast
    have "\<forall>j<length (e # es). Suc i < j \<longrightarrow> entry_sequenceNumber ((e # es) ! j) \<noteq> n"
    proof (intro allI impI)
      fix j assume "j < length (e # es)" "Suc i < j"
      then obtain j' where "j = Suc j'" "j' < length es" "i < j'"
        by (cases j) auto
      with i(3) show "entry_sequenceNumber ((e # es) ! j) \<noteq> n" by simp
    qed
    with i show ?thesis
      by (intro exI [of _ "Suc i"]) simp
  next
    case False
    with Cons.prems have e: "entry_sequenceNumber e = n" by auto
    from False have "find_index_loop n es (Suc k) (int k) = int k"
      by (intro find_index_loop_miss) blast
    moreover have "\<forall>j<length (e # es). 0 < j \<longrightarrow> entry_sequenceNumber ((e # es) ! j) \<noteq> n"
    proof (intro allI impI)
      fix j assume "j < length (e # es)" "0 < j"
      then obtain j' where "j = Suc j'" "j' < length es" by (cases j) auto
      with False show "entry_sequenceNumber ((e # es) ! j) \<noteq> n" by auto
    qed
    ultimately show ?thesis using e
      by (intro exI [of _ 0]) simp
  qed
qed

text \<open>
  C5. If some entry of the sent queue has sequence number \<open>n\<close>, then
  \<open>acknowledgeNotification n\<close> returns \<open>Good\<close>, removes exactly one entry, which has
  sequence number \<open>n\<close> (the last one in the queue, should several have it), and decrements
  \<open>_unacknowledgedMessageCount\<close> by one, leaving everything else as it was. If no entry
  has sequence number \<open>n\<close>, it returns \<open>BadSequenceNumberUnknown\<close> and the subscription
  is unchanged in every field.
\<close>

theorem acknowledgeNotification_hit_or_miss:
  "((\<exists>e\<in>set (sent_notifications s). entry_sequenceNumber e = n) \<longrightarrow>
      (\<exists>i<length (sent_notifications s).
         entry_sequenceNumber (sent_notifications s ! i) = n
       \<and> (\<forall>j<length (sent_notifications s). i < j \<longrightarrow>
             entry_sequenceNumber (sent_notifications s ! j) \<noteq> n)
       \<and> acknowledgeNotification n s =
           (Good, s\<lparr>sent_notifications :=
                       take i (sent_notifications s) @ drop (Suc i) (sent_notifications s),
                     unacknowledgedMessageCount := unacknowledgedMessageCount s - 1\<rparr>)))
   \<and> ((\<forall>e\<in>set (sent_notifications s). entry_sequenceNumber e \<noteq> n) \<longrightarrow>
        acknowledgeNotification n s = (BadSequenceNumberUnknown, s))"
proof (intro conjI impI)
  assume "\<exists>e\<in>set (sent_notifications s). entry_sequenceNumber e = n"
  from find_index_loop_hit [OF this, of 0 "- 1"]
  obtain i where i: "i < length (sent_notifications s)"
      "entry_sequenceNumber (sent_notifications s ! i) = n"
      "\<forall>j<length (sent_notifications s). i < j \<longrightarrow>
             entry_sequenceNumber (sent_notifications s ! j) \<noteq> n"
      "find_index_loop n (sent_notifications s) 0 (- 1) = int (0 + i)"
    by blast
  from i(4) have "acknowledgeNotification n s =
           (Good, s\<lparr>sent_notifications :=
                       take i (sent_notifications s) @ drop (Suc i) (sent_notifications s),
                     unacknowledgedMessageCount := unacknowledgedMessageCount s - 1\<rparr>)"
    by (simp add: acknowledgeNotification_def splice_def)
  with i(1-3) show "\<exists>i<length (sent_notifications s).
         entry_sequenceNumber (sent_notifications s ! i) = n
       \<and> (\<forall>j<length (sent_notifications s). i < j \<longrightarrow>
             entry_sequenceNumber (sent_notifications s ! j) \<noteq> n)
       \<and> acknowledgeNotification n s =
           (Good, s\<lparr>sent_notifications :=
                       take i (sent_notifications s) @ drop (Suc i) (sent_notifications s),
                     unacknowledgedMessageCount := unacknowledgedMessageCount s - 1\<rparr>)"
    by blast
next
  assume "\<forall>e\<in>set (sent_notifications s). entry_sequenceNumber e \<noteq> n"
  then show "acknowledgeNotification n s = (BadSequenceNumberUnknown, s)"
    by (simp add: acknowledgeNotification_def find_index_loop_miss)
qed

lemma sent3: "sent_notifications subscription_with_three_sent = [sent_entry 1, sent_entry 2, sent_entry 3]"
    and unack3: "unacknowledgedMessageCount subscription_with_three_sent = 3"
    by (simp_all add: subscription_with_three_sent_def)

lemma seq_sent_entry: "entry_sequenceNumber (sent_entry n) = n"
  by (simp add: sent_entry_def)

theorem acknowledgeNotification_hit_or_miss_witness:
  "acknowledgeNotification 2 subscription_with_three_sent =
       (Good, subscription_with_three_sent
                \<lparr>sent_notifications := [sent_entry 1, sent_entry 3],
                 unacknowledgedMessageCount := 2\<rparr>)
   \<and> acknowledgeNotification 7 subscription_with_three_sent =
       (BadSequenceNumberUnknown, subscription_with_three_sent)"
proof -
  let ?s = subscription_with_three_sent
  have hit: "\<exists>e\<in>set (sent_notifications ?s). entry_sequenceNumber e = 2"
    by (simp add: sent3 seq_sent_entry)
  have miss: "\<forall>e\<in>set (sent_notifications ?s). entry_sequenceNumber e \<noteq> 7"
    by (simp add: sent3 seq_sent_entry)
  from acknowledgeNotification_hit_or_miss [of ?s 2] hit
  obtain i where i: "i < length (sent_notifications ?s)"
      "entry_sequenceNumber (sent_notifications ?s ! i) = 2"
    and r: "acknowledgeNotification 2 ?s =
       (Good, ?s\<lparr>sent_notifications := take i (sent_notifications ?s) @ drop (Suc i) (sent_notifications ?s),
                 unacknowledgedMessageCount := unacknowledgedMessageCount ?s - 1\<rparr>)"
    by blast
  from i(1) have "i = 0 \<or> i = 1 \<or> i = 2"
    by (simp add: sent3) arith
  with i(2) have "i = 1"
    by (auto simp: sent3 seq_sent_entry)
  with r have "acknowledgeNotification 2 ?s =
       (Good, ?s\<lparr>sent_notifications := [sent_entry 1, sent_entry 3],
                 unacknowledgedMessageCount := 2\<rparr>)"
    by (simp add: sent3 unack3)
  moreover from acknowledgeNotification_hit_or_miss [of ?s 7] miss
  have "acknowledgeNotification 7 ?s = (BadSequenceNumberUnknown, ?s)"
    by blast
  ultimately show ?thesis by blast
qed

subsection \<open>The discard-old pass\<close>

lemma discardOldSentNotifications_keeps_head:
  "maxNotificationMessagesInQueue \<le> length (sent_notifications s) \<Longrightarrow>
   sent_notifications (discardOldSentNotifications s) =
     take (length (sent_notifications s) - 100) (sent_notifications s)"
  by (simp add: discardOldSentNotifications_def splice_from_def
      maxNotificationMessagesInQueue_def Let_def nat_diff_distrib')

text \<open>
  C1. With 101 sent messages, sequence numbers 1 to 101 in the order they were sent,
  the discard-old pass leaves the single oldest message (sequence number 1) in the queue:
  \<open>splice(length - 100)\<close> deletes the 100 most recent entries, not the oldest one.
\<close>

theorem discardOldSentNotifications_at_101:
  "sent_notifications
     (discardOldSentNotifications (example_subscription\<lparr>sent_notifications := map sent_entry [1..<102]\<rparr>))
   = [sent_entry 1]"
  by (simp add: discardOldSentNotifications_def splice_from_def
      maxNotificationMessagesInQueue_def Let_def take_map upt_conv_Cons)

subsection \<open>modify\<close>

lemma ceil_div_ceiling: "ceil_div a b = \<lceil>real_of_int a / real_of_int b\<rceil>"
  by (simp add: ceil_div_def ceiling_divide_eq_div)

lemma adjust_publishing_interval_clamp:
  "adjust_publishing_interval x = clamp (or_default x 1000) 50 (15 * 24 * 3600 * 1000)"
  by (simp add: adjust_publishing_interval_def clamp_def Let_def
      defaultPublishingInterval_def minimumPublishingInterval_def maximumPublishingInterval_def)

lemma adjust_publishing_interval_ge: "50 \<le> adjust_publishing_interval x"
  by (simp add: adjust_publishing_interval_clamp clamp_def)

lemma adjust_maxKeepAliveCount_clamp:
  "adjust_maxKeepAliveCount x = clamp (or_default x 2) 2 12000"
  by (simp add: adjust_maxKeepAliveCount_def clamp_def Let_def
      minimumMaxKeepAliveCount_def maximumMaxKeepAliveCount_def)

lemma adjust_lifeTimeCount_max:
  "adjust_lifeTimeCount l k p =
     max (or_default l 1) (max (3 * k) \<lceil>5000 / real_of_int p\<rceil>)"
  using ceil_div_ceiling [of 5000 p]
  by (simp add: adjust_lifeTimeCount_def Let_def max.commute max.left_commute mult.commute)

lemma start_timer_after_stop:
  "50 \<le> publishingInterval s \<Longrightarrow>
   start_timer (stop_timer s) =
     Inr (s\<lparr>keep_alive_counter := maxKeepAliveCount s,
            timerId := Some (publishingInterval s),
            trace := trace s @ (if timerId s = None then [] else [ClearInterval])
                       @ [SetInterval (publishingInterval s)]\<rparr>)"
  by (cases "timerId s")
     (simp_all add: start_timer_def stop_timer_def emit_def minimumPublishingInterval_def Let_def)

text \<open>
  C2 (amended). For every subscription and every request \<open>p\<close>, \<open>modify p\<close> returns
  normally, and afterwards: \<open>publishingInterval\<close> is the requested interval (1000 when 0)
  clamped to [50, 15 days]; \<open>maxKeepAliveCount\<close> is the requested count (the current
  count when 0) clamped to [2, 12000]; \<open>lifeTimeCount\<close> is the maximum of the requested
  count (the current count when 0), three times the new \<open>maxKeepAliveCount\<close> and
  \<open>ceil(5000 / publishingInterval)\<close>; for a request with
  \<open>maxNotificationsPerPublish \<ge> 0\<close>, \<open>maxNotificationsPerPublish\<close> is
  \<open>max(input, 0)\<close>; \<open>_life_time_counter\<close> is 0 and \<open>_keep_alive_counter\<close> equals the
  new \<open>maxKeepAliveCount\<close>, which the restarted timer sets so that the first tick sends
  a keep-alive.
\<close>

theorem modify_adjusts_parameters:
  "\<exists>s'. modify p s = Inr s'
     \<and> publishingInterval s' =
         clamp (or_default (requestedPublishingInterval p) 1000) 50 (15 * 24 * 3600 * 1000)
     \<and> maxKeepAliveCount s' =
         clamp (or_default (or_default (requestedMaxKeepAliveCount p) (maxKeepAliveCount s)) 2) 2 12000
     \<and> lifeTimeCount s' =
         max (or_default (or_default (requestedLifetimeCount p) (lifeTimeCount s)) 1)
           (max (3 * maxKeepAliveCount s') \<lceil>5000 / real_of_int (publishingInterval s')\<rceil>)
     \<and> (0 \<le> param_maxNotificationsPerPublish p \<longrightarrow>
           maxNotificationsPerPublish s' = max (param_maxNotificationsPerPublish p) 0)
     \<and> life_time_counter s' = 0
     \<and> keep_alive_counter s' = maxKeepAliveCount s'"
proof -
  let ?pi = "adjust_publishing_interval (or_default (requestedPublishingInterval p) 0)"
  let ?mk = "adjust_maxKeepAliveCount (or_default (requestedMaxKeepAliveCount p) (maxKeepAliveCount s))"
  let ?lt = "adjust_lifeTimeCount (or_default (requestedLifetimeCount p) (lifeTimeCount s)) ?mk ?pi"
  let ?t = "s\<lparr>subscriptionDiagnostics :=
                   (subscriptionDiagnostics s)\<lparr>modifyCount := modifyCount (subscriptionDiagnostics s) + 1\<rparr>,
              publishingInterval := ?pi, maxKeepAliveCount := ?mk, lifeTimeCount := ?lt,
              maxNotificationsPerPublish := param_maxNotificationsPerPublish p,
              priority := param_priority p,
              life_time_counter := 0, keep_alive_counter := 0\<rparr>"
  have m: "modify p s = start_timer (stop_timer ?t)"
    by (simp add: modify_def Let_def resetLifeTimeAndKeepAliveCounters_def
        resetLifeTimeCounter_def resetKeepAliveCounter_def)
  have "50 \<le> publishingInterval ?t"
    by (simp add: adjust_publishing_interval_ge)
  from start_timer_after_stop [OF this] m
  have r: "modify p s =
     Inr (?t\<lparr>keep_alive_counter := maxKeepAliveCount ?t,
            timerId := Some (publishingInterval ?t),
            trace := trace ?t @ (if timerId ?t = None then [] else [ClearInterval])
                       @ [SetInterval (publishingInterval ?t)]\<rparr>)"
    by simp
  have pi: "?pi = clamp (or_default (requestedPublishingInterval p) 1000) 50 (15 * 24 * 3600 * 1000)"
    by (simp add: adjust_publishing_interval_clamp or_default_def)
  let ?r = "?t\<lparr>keep_alive_counter := maxKeepAliveCount ?t,
            timerId := Some (publishingInterval ?t),
            trace := trace ?t @ (if timerId ?t = None then [] else [ClearInterval])
                       @ [SetInterval (publishingInterval ?t)]\<rparr>"
  have 1: "publishingInterval ?r =
         clamp (or_default (requestedPublishingInterval p) 1000) 50 (15 * 24 * 3600 * 1000)"
    by (simp add: pi)
  have 2: "maxKeepAliveCount ?r =
         clamp (or_default (or_default (requestedMaxKeepAliveCount p) (maxKeepAliveCount s)) 2) 2 12000"
    by (simp add: adjust_maxKeepAliveCount_clamp)
  have 3: "lifeTimeCount ?r =
         max (or_default (or_default (requestedLifetimeCount p) (lifeTimeCount s)) 1)
           (max (3 * maxKeepAliveCount ?r) \<lceil>5000 / real_of_int (publishingInterval ?r)\<rceil>)"
    by (simp add: adjust_lifeTimeCount_max)
  have 4: "0 \<le> param_maxNotificationsPerPublish p \<longrightarrow>
           maxNotificationsPerPublish ?r = max (param_maxNotificationsPerPublish p) 0"
    by simp
  have 5: "life_time_counter ?r = 0" by simp
  have 6: "keep_alive_counter ?r = maxKeepAliveCount ?r" by simp
  from r 1 2 3 4 5 6 show ?thesis by blast
qed


lemma modify_example:
  "modify modify_request_no_change example_subscription = Inr example_subscription_modified"
  by (simp add: modify_def modify_request_no_change_def example_subscription_def
      example_subscription_modified_def Let_def or_default_def
      adjust_publishing_interval_def adjust_maxKeepAliveCount_def adjust_lifeTimeCount_def
      ceil_div_def defaultPublishingInterval_def minimumPublishingInterval_def
      maximumPublishingInterval_def minimumMaxKeepAliveCount_def maximumMaxKeepAliveCount_def
      resetLifeTimeAndKeepAliveCounters_def resetLifeTimeCounter_def resetKeepAliveCounter_def
      stop_timer_def start_timer_def emit_def)

text \<open>
  C2 as stated fails: for the request (1000, 0, 0, 0, 0) on the example subscription
  (keep-alive count 3, lifetime count 50) the code keeps both counts, where the formulas
  of the specification give 2 and 6, and leaves \<open>_keep_alive_counter\<close> at 3, not 0.
\<close>

theorem modify_postcondition_counterexample:
  "modify modify_request_no_change example_subscription = Inr example_subscription_modified
   \<and> maxKeepAliveCount example_subscription_modified = 3
   \<and> lifeTimeCount example_subscription_modified = 50
   \<and> keep_alive_counter example_subscription_modified = 3
   \<and> \<not> modify_postcondition_of_spec modify_request_no_change example_subscription_modified"
  by (simp add: modify_example)
     (simp add: example_subscription_modified_def example_subscription_def
        modify_postcondition_of_spec_def)

theorem modify_adjusts_parameters_witness:
  "0 \<le> param_maxNotificationsPerPublish modify_request_no_change
   \<and> (\<exists>s'. modify modify_request_no_change example_subscription = Inr s'
         \<and> publishingInterval s' = 1000 \<and> maxKeepAliveCount s' = 3 \<and> lifeTimeCount s' = 50
         \<and> maxNotificationsPerPublish s' = 0
         \<and> life_time_counter s' = 0 \<and> keep_alive_counter s' = 3)"
proof -
  have h: "0 \<le> param_maxNotificationsPerPublish modify_request_no_change"
    by (simp add: modify_request_no_change_def)
  from modify_adjusts_parameters [of modify_request_no_change example_subscription] h
  obtain s' where s': "modify modify_request_no_change example_subscription = Inr s'"
    "publishingInterval s' =
         clamp (or_default (requestedPublishingInterval modify_request_no_change) 1000) 50 (15 * 24 * 3600 * 1000)"
    "maxKeepAliveCount s' =
         clamp (or_default (or_default (requestedMaxKeepAliveCount modify_request_no_change)
                  (maxKeepAliveCount example_subscription)) 2) 2 12000"
    "lifeTimeCount s' =
         max (or_default (or_default (requestedLifetimeCount modify_request_no_change)
                (lifeTimeCount example_subscription)) 1)
           (max (3 * maxKeepAliveCount s') \<lceil>5000 / real_of_int (publishingInterval s')\<rceil>)"
    "maxNotificationsPerPublish s' = max (param_maxNotificationsPerPublish modify_request_no_change) 0"
    "life_time_counter s' = 0" "keep_alive_counter s' = maxKeepAliveCount s'"
    by blast
  have pi: "publishingInterval s' = 1000"
    using s'(2) by (simp add: modify_request_no_change_def or_default_def clamp_def)
  have mk: "maxKeepAliveCount s' = 3"
    using s'(3) by (simp add: modify_request_no_change_def example_subscription_def or_default_def clamp_def)
  have lt: "lifeTimeCount s' = 50"
    using s'(4) by (simp add: pi mk modify_request_no_change_def example_subscription_def or_default_def)
  have mn: "maxNotificationsPerPublish s' = 0"
    using s'(5) by (simp add: modify_request_no_change_def)
  from h s'(1) pi mk lt mn s'(6,7) show ?thesis by auto
qed

subsection \<open>Notification assembly\<close>

lemma extract_loop_take_drop:
  "k \<le> length q \<Longrightarrow>
   extract_loop (int k) q chunk = Some (chunk @ map Some (take k q), drop k q)"
proof (induction k arbitrary: q chunk)
  case 0
  show ?case by (subst extract_loop.simps) simp
next
  case (Suc k)
  then obtain x r where q: "q = x # r" by (cases q) auto
  with Suc.prems have "k \<le> length r" by simp
  from Suc.IH [OF this, of "chunk @ [Some x]"]
  show ?case
    by (subst extract_loop.simps) (simp add: q dequeue_shift_def)
qed

lemma extract_notifications_chunk_zero:
  "extract_notifications_chunk q 0 = Some (map Some q, [])"
  using extract_loop_take_drop [of "length q" q "[]"]
  by (simp add: extract_notifications_chunk_def)

lemma extract_notifications_chunk_pos:
  assumes "0 < m"
  shows "extract_notifications_chunk q m = Some (map Some (take (nat m) q), drop (nat m) q)"
proof (cases "length q \<le> nat m")
  case True
  with assms have "min (int (length q)) m = int (length q)" by auto
  with True assms show ?thesis
    using extract_loop_take_drop [of "length q" q "[]"]
    by (simp add: extract_notifications_chunk_def)
next
  case False
  with assms have "min (int (length q)) m = int (nat m)" by auto
  with False assms show ?thesis
    using extract_loop_take_drop [of "nat m" q "[]"]
    by (simp add: extract_notifications_chunk_def)
qed

text \<open>
  A negative \<open>maxNotificationsPerPublish\<close> (which \<open>modify\<close> can store) makes the
  chunk loop count down from a negative number: the harvest of a non-empty list then
  never returns.
\<close>

lemma extract_loop_returns_nonneg:
  assumes "extract_loop n q chunk = Some r"
  shows "0 \<le> n"
proof (rule extract_loop.raw_induct [where P = "\<lambda>n q chunk r. 0 \<le> n", OF _ assms])
  fix f :: "int \<Rightarrow> notification_element list \<Rightarrow> notification_element option list
              \<Rightarrow> (notification_element option list \<times> notification_element list) option"
    and n q chunk r
  assume IH: "\<And>n q chunk r. f n q chunk = Some r \<Longrightarrow> 0 \<le> n"
    and eq: "(if n = 0 then Some (chunk, q)
              else f (n - 1) (snd (dequeue_shift q)) (chunk @ [fst (dequeue_shift q)])) = Some r"
  show "0 \<le> n"
  proof (cases "n = 0")
    case True
    then show ?thesis by simp
  next
    case False
    with eq have "f (n - 1) (snd (dequeue_shift q)) (chunk @ [fst (dequeue_shift q)]) = Some r"
      by simp
    from IH [OF this] show ?thesis by simp
  qed
qed

lemma extract_loop_negative_diverges:
  "n < 0 \<Longrightarrow> extract_loop n q chunk = None"
  using extract_loop_returns_nonneg [of n q chunk]
  by (cases "extract_loop n q chunk") auto

lemma extract_notifications_chunk_negative_diverges:
  "m < 0 \<Longrightarrow> extract_notifications_chunk q m = None"
  by (simp add: extract_notifications_chunk_def extract_loop_negative_diverges min_def)

lemma collect_loop_negative_diverges:
  "m < 0 \<Longrightarrow> xs \<noteq> [] \<Longrightarrow> collect_loop m xs acc = None"
  by (subst collect_loop.simps) (simp add: extract_notifications_chunk_negative_diverges)

lemma filter_instanceof_Some:
  "filter (filter_instanceof MonitoredItemNotification_class) (map Some c) = map Some (filter is_data_change c)"
  "filter (filter_instanceof EventFieldList_class) (map Some c) = map Some (filter is_event c)"
proof (induction c)
  case Nil
  { case 1 show ?case by simp }
  { case 2 show ?case by simp }
next
  case (Cons e c)
  { case 1 with Cons show ?case by (cases e) simp_all }
  { case 2 with Cons show ?case by (cases e) simp_all }
qed

lemma length_filter_both:
  "length (filter is_data_change c) + length (filter is_event c) = length c"
proof (induction c)
  case Nil show ?case by simp
next
  case (Cons e c) then show ?case by (cases e) simp_all
qed

lemma chunk_notifications_Some: "chunk_notifications (map Some c) = chunk_objects c"
  by (simp add: chunk_notifications_def chunk_objects_def filter_instanceof_Some Let_def comp_def)

lemma length_chunk_objects:
  "c \<noteq> [] \<Longrightarrow> length (chunk_objects c) = 1 \<or> length (chunk_objects c) = 2"
  using length_filter_both [of c]
  by (auto simp: chunk_objects_def)


lemma chunks_of_Nil [simp]: "chunks_of m [] = []"
  by (subst chunks_of.simps) simp

lemma chunks_of_zero: "xs \<noteq> [] \<Longrightarrow> chunks_of 0 xs = [xs]"
  by (subst chunks_of.simps) simp

lemma chunks_of_pos:
  "xs \<noteq> [] \<Longrightarrow> 0 < m \<Longrightarrow> chunks_of m xs = take m xs # chunks_of m (drop m xs)"
  by (subst chunks_of.simps) simp

lemma collect_loop_step:
  assumes "xs \<noteq> []" "c \<noteq> []"
      and "extract_notifications_chunk xs m = Some (map Some c, r)"
  shows "collect_loop m xs acc = collect_loop m r (acc @ [chunk_objects c])"
  using assms length_chunk_objects [of c] length_filter_both [of c]
  by (subst collect_loop.simps)
     (auto simp: chunk_notifications_Some filter_instanceof_Some)

lemma collect_loop_chunks:
  "0 \<le> m \<Longrightarrow>
   collect_loop m xs acc = Some (Inr (acc @ map chunk_objects (chunks_of (nat m) xs)))"
proof (induction "nat m" xs arbitrary: acc rule: chunks_of.induct)
  case (1 xs)
  show ?case
  proof (cases "xs = []")
    case True
    then show ?thesis by (subst collect_loop.simps) simp
  next
    case False
    show ?thesis
    proof (cases "m = 0")
      case True
      from collect_loop_step [OF False False, of m "[]" acc]
      have "collect_loop m xs acc = collect_loop m [] (acc @ [chunk_objects xs])"
        by (simp add: True extract_notifications_chunk_zero)
      also have "\<dots> = Some (Inr (acc @ [chunk_objects xs]))"
        by (subst collect_loop.simps) simp
      finally show ?thesis using False True by (simp add: chunks_of_zero)
    next
      case nz: False
      with "1.prems" have pos: "0 < m" by simp
      with False have ne: "take (nat m) xs \<noteq> []" by simp
      from collect_loop_step [OF False ne, of m "drop (nat m) xs" acc]
      have "collect_loop m xs acc =
              collect_loop m (drop (nat m) xs) (acc @ [chunk_objects (take (nat m) xs)])"
        by (simp add: extract_notifications_chunk_pos [OF pos])
      also have "\<dots> = Some (Inr ((acc @ [chunk_objects (take (nat m) xs)])
                         @ map chunk_objects (chunks_of (nat m) (drop (nat m) xs))))"
        using "1.hyps" [OF False _ "1.prems"] pos by simp
      finally show ?thesis using False pos by (simp add: chunks_of_pos)
    qed
  qed
qed

lemma concat_chunks_of: "concat (chunks_of m xs) = xs"
proof (induction m xs rule: chunks_of.induct)
  case (1 m xs)
  show ?case
  proof (cases "xs = [] \<or> m = 0")
    case True
    then show ?thesis by (cases "xs = []") (auto simp: chunks_of_zero)
  next
    case False
    with 1 show ?thesis by (simp add: chunks_of_pos)
  qed
qed

lemma chunks_of_bounds:
  "c \<in> set (chunks_of m xs) \<Longrightarrow> c \<noteq> [] \<and> (m \<noteq> 0 \<longrightarrow> length c \<le> m)"
proof (induction m xs rule: chunks_of.induct)
  case (1 m xs)
  show ?case
  proof (cases "xs = []")
    case True
    with "1.prems" show ?thesis by simp
  next
    case ne: False
    show ?thesis
    proof (cases "m = 0")
      case True
      with ne "1.prems" show ?thesis by (simp add: chunks_of_zero)
    next
      case False
      with ne "1.prems" have "c = take m xs \<or> c \<in> set (chunks_of m (drop m xs))"
        by (simp add: chunks_of_pos)
      then show ?thesis
      proof
        assume "c = take m xs"
        with ne False show ?thesis by simp
      next
        assume "c \<in> set (chunks_of m (drop m xs))"
        from "1.IH" [OF ne False this] show ?thesis .
      qed
    qed
  qed
qed

lemma numbered_entries_sequenceNumbers:
  "map entry_sequenceNumber (numbered_entries g t msgs) = [g..<g + length msgs]"
proof (induction msgs arbitrary: g)
  case Nil
  show ?case by simp
next
  case (Cons nd msgs)
  have "[g..<Suc (g + length msgs)] = g # [Suc g..<Suc (g + length msgs)]"
    by (rule upt_conv_Cons) simp
  with Cons.IH [of "Suc g"] show ?case by (simp del: upt_Suc)
qed

lemma numbered_entries_notificationData:
  "map (\<lambda>e. notificationData (notification e)) (numbered_entries g t msgs) = msgs"
  by (induction msgs arbitrary: g) simp_all

lemma addNotificationMessage_numbered:
  assumes "length nd = 1 \<or> length nd = 2" "sequence_number_generator s = Some g"
  shows "addNotificationMessage nd s =
           Inr (s\<lparr>sequence_number_generator := Some (Suc g),
                  pending_notifications :=
                    pending_notifications s @ numbered_entries g (publishIntervalCount s) [nd],
                  trace := trace s @ map PushPendingNotification
                                       (numbered_entries g (publishIntervalCount s) [nd])\<rparr>)"
proof -
  from assms(1) have "\<not> \<not> (length nd = 1 \<or> length nd = 2)" by simp
  then show ?thesis
    unfolding addNotificationMessage_def
    by (simp only: if_not_P) 
       (simp add: assms(2) get_next_sequence_number_def generator_next_def emit_def Let_def)
qed

lemma add_all_messages_numbered:
  assumes "\<forall>nd\<in>set msgs. length nd = 1 \<or> length nd = 2"
      and "sequence_number_generator s = Some g"
  shows "add_all_messages msgs s =
           Inr (s\<lparr>sequence_number_generator := Some (g + length msgs),
                  pending_notifications :=
                    pending_notifications s @ numbered_entries g (publishIntervalCount s) msgs,
                  trace := trace s @ map PushPendingNotification
                                       (numbered_entries g (publishIntervalCount s) msgs)\<rparr>)"
  using assms
proof (induction msgs arbitrary: s g)
  case Nil
  then show ?case by simp
next
  case (Cons nd msgs)
  let ?s1 = "s\<lparr>sequence_number_generator := Some (Suc g),
                  pending_notifications :=
                    pending_notifications s @ numbered_entries g (publishIntervalCount s) [nd],
                  trace := trace s @ map PushPendingNotification
                                       (numbered_entries g (publishIntervalCount s) [nd])\<rparr>"
  from Cons.prems have 1: "addNotificationMessage nd s = Inr ?s1"
    by (intro addNotificationMessage_numbered) auto
  have "add_all_messages msgs ?s1 =
          Inr (?s1\<lparr>sequence_number_generator := Some (Suc g + length msgs),
                  pending_notifications :=
                    pending_notifications ?s1 @ numbered_entries (Suc g) (publishIntervalCount ?s1) msgs,
                  trace := trace ?s1 @ map PushPendingNotification
                                       (numbered_entries (Suc g) (publishIntervalCount ?s1) msgs)\<rparr>)"
    using Cons.prems by (intro Cons.IH) auto
  with 1 show ?case by simp
qed

lemma visit_monitored_items_total:
  "set keys \<subseteq> dom (map_of items) \<Longrightarrow>
   \<exists>items' xs. visit_monitored_items keys items acc = Inr (items', xs)"
proof (induction keys arbitrary: items acc)
  case Nil
  show ?case by simp
next
  case (Cons key keys)
  then obtain item where item: "map_of items key = Some item" by auto
  have "set keys \<subseteq> dom (map_of (AList.update key (snd (extractMonitoredItemNotifications item)) items))"
    using Cons.prems by (auto simp: update_conv')
  from Cons.IH [OF this] item show ?case by simp
qed

lemma visit_Object_keys_total:
  "\<exists>items' xs. visit_monitored_items (Object_keys items) items [] = Inr (items', xs)"
  by (rule visit_monitored_items_total) (simp add: Object_keys_def dom_map_of_conv_image_fst)

lemma collectNotificationData_eq:
  assumes "visit_monitored_items (Object_keys (monitoredItems s)) (monitoredItems s) [] = Inr (items', xs)"
      and "0 \<le> maxNotificationsPerPublish s"
  shows "collectNotificationData s =
           Some (Inr (map chunk_objects (chunks_of (nat (maxNotificationsPerPublish s)) xs),
                      s\<lparr>hasMonitoredItemNotifications_cache := False, monitoredItems := items'\<rparr>))"
  using assms
  by (simp add: collectNotificationData_def collect_loop_chunks)

lemma chunk_objects_lengths:
  "\<forall>nd\<in>set (map chunk_objects (chunks_of m xs)). length nd = 1 \<or> length nd = 2"
  using chunks_of_bounds [of _ m xs] length_chunk_objects by auto

lemma harvestMonitoredItems_eq:
  assumes "visit_monitored_items (Object_keys (monitoredItems s)) (monitoredItems s) [] = Inr (items', xs)"
      and "0 \<le> maxNotificationsPerPublish s"
      and "sequence_number_generator s = Some g"
  shows "harvestMonitoredItems s =
           Some (Inr (s\<lparr>hasMonitoredItemNotifications_cache := False,
                        monitoredItems := items',
                        sequence_number_generator :=
                          Some (g + length (chunks_of (nat (maxNotificationsPerPublish s)) xs)),
                        pending_notifications :=
                          pending_notifications s
                          @ numbered_entries g (publishIntervalCount s)
                              (map chunk_objects (chunks_of (nat (maxNotificationsPerPublish s)) xs)),
                        trace :=
                          trace s
                          @ map PushPendingNotification
                              (numbered_entries g (publishIntervalCount s)
                                 (map chunk_objects (chunks_of (nat (maxNotificationsPerPublish s)) xs)))\<rparr>))"
proof -
  let ?msgs = "map chunk_objects (chunks_of (nat (maxNotificationsPerPublish s)) xs)"
  let ?s1 = "s\<lparr>hasMonitoredItemNotifications_cache := False, monitoredItems := items'\<rparr>"
  have "sequence_number_generator ?s1 = Some g" using assms(3) by simp
  from add_all_messages_numbered [OF chunk_objects_lengths this]
  have "add_all_messages ?msgs ?s1 =
          Inr (?s1\<lparr>sequence_number_generator := Some (g + length ?msgs),
                  pending_notifications :=
                    pending_notifications ?s1 @ numbered_entries g (publishIntervalCount ?s1) ?msgs,
                  trace := trace ?s1 @ map PushPendingNotification
                                       (numbered_entries g (publishIntervalCount ?s1) ?msgs)\<rparr>)" .
  with collectNotificationData_eq [OF assms(1,2)] show ?thesis
    by (simp add: harvestMonitoredItems_def)
qed

text \<open>
  C3. Let \<open>xs\<close> be the list harvested from the monitored items and
  \<open>m = maxNotificationsPerPublish \<ge> 0\<close>. \<open>_collectNotificationData\<close> returns, in order,
  the notification objects of the chunks \<open>chunks_of m xs\<close>: the chunks concatenate to
  \<open>xs\<close>, none is empty, each has at most \<open>m\<close> entries when \<open>m \<noteq> 0\<close>, and \<open>m = 0\<close>
  gives the single chunk \<open>xs\<close>; every chunk yields one or two objects, a
  \<open>DataChangeNotification\<close> with its data-change entries and/or an
  \<open>EventNotificationList\<close> with its event entries, data-change first. The harvest
  appends one message per chunk to the pending queue, numbered consecutively from the
  next sequence number \<open>g\<close> of the generator, which is advanced past them.
\<close>

theorem collectNotificationData_chunks:
  assumes "visit_monitored_items (Object_keys (monitoredItems s)) (monitoredItems s) [] = Inr (items', xs)"
      and "0 \<le> maxNotificationsPerPublish s"
      and "sequence_number_generator s = Some g"
  shows "collectNotificationData s =
           Some (Inr (map chunk_objects (chunks_of (nat (maxNotificationsPerPublish s)) xs),
                      s\<lparr>hasMonitoredItemNotifications_cache := False, monitoredItems := items'\<rparr>))
       \<and> concat (chunks_of (nat (maxNotificationsPerPublish s)) xs) = xs
       \<and> (\<forall>c\<in>set (chunks_of (nat (maxNotificationsPerPublish s)) xs).
             c \<noteq> []
           \<and> (maxNotificationsPerPublish s \<noteq> 0 \<longrightarrow> int (length c) \<le> maxNotificationsPerPublish s)
           \<and> (length (chunk_objects c) = 1 \<or> length (chunk_objects c) = 2))
       \<and> (maxNotificationsPerPublish s = 0 \<and> xs \<noteq> [] \<longrightarrow>
             chunks_of (nat (maxNotificationsPerPublish s)) xs = [xs])
       \<and> (\<exists>s'. harvestMonitoredItems s = Some (Inr s')
             \<and> pending_notifications s' =
                 pending_notifications s
                 @ numbered_entries g (publishIntervalCount s)
                     (map chunk_objects (chunks_of (nat (maxNotificationsPerPublish s)) xs))
             \<and> sequence_number_generator s' =
                 Some (g + length (chunks_of (nat (maxNotificationsPerPublish s)) xs)))
       \<and> map entry_sequenceNumber
             (numbered_entries g (publishIntervalCount s)
                (map chunk_objects (chunks_of (nat (maxNotificationsPerPublish s)) xs)))
           = [g..<g + length (chunks_of (nat (maxNotificationsPerPublish s)) xs)]
       \<and> map (\<lambda>e. notificationData (notification e))
             (numbered_entries g (publishIntervalCount s)
                (map chunk_objects (chunks_of (nat (maxNotificationsPerPublish s)) xs)))
           = map chunk_objects (chunks_of (nat (maxNotificationsPerPublish s)) xs)"
proof -
  let ?m = "maxNotificationsPerPublish s"
  let ?cs = "chunks_of (nat ?m) xs"
  have bounds: "\<forall>c\<in>set ?cs. c \<noteq> [] \<and> (?m \<noteq> 0 \<longrightarrow> int (length c) \<le> ?m)
                  \<and> (length (chunk_objects c) = 1 \<or> length (chunk_objects c) = 2)"
  proof
    fix c assume c: "c \<in> set ?cs"
    from chunks_of_bounds [OF c] have ne: "c \<noteq> []" and le: "nat ?m \<noteq> 0 \<longrightarrow> length c \<le> nat ?m"
      by auto
    from le assms(2) have "?m \<noteq> 0 \<longrightarrow> int (length c) \<le> ?m" by auto
    with ne length_chunk_objects [OF ne]
    show "c \<noteq> [] \<and> (?m \<noteq> 0 \<longrightarrow> int (length c) \<le> ?m)
            \<and> (length (chunk_objects c) = 1 \<or> length (chunk_objects c) = 2)"
      by blast
  qed
  have zero: "?m = 0 \<and> xs \<noteq> [] \<longrightarrow> ?cs = [xs]"
    by (simp add: chunks_of_zero)
  have harvest: "\<exists>s'. harvestMonitoredItems s = Some (Inr s')
             \<and> pending_notifications s' =
                 pending_notifications s
                 @ numbered_entries g (publishIntervalCount s) (map chunk_objects ?cs)
             \<and> sequence_number_generator s' = Some (g + length ?cs)"
    by (simp add: harvestMonitoredItems_eq [OF assms])
  have seqs: "map entry_sequenceNumber
                (numbered_entries g (publishIntervalCount s) (map chunk_objects ?cs))
              = [g..<g + length ?cs]"
    using numbered_entries_sequenceNumbers [of g "publishIntervalCount s" "map chunk_objects ?cs"]
    by simp
  from collectNotificationData_eq [OF assms(1,2)] concat_chunks_of [of "nat ?m" xs]
    bounds zero harvest seqs
    numbered_entries_notificationData [of g "publishIntervalCount s" "map chunk_objects ?cs"]
  show ?thesis by blast
qed

lemma visit_S4:
  "visit_monitored_items (Object_keys (monitoredItems subscription_S4)) (monitoredItems subscription_S4) []
     = Inr (drained_items_S4, harvest_S4)"
  by (simp add: subscription_S4_def Object_keys_def extractMonitoredItemNotifications_def
      drained_items_S4_def harvest_S4_def harvest_of_def)

lemma chunks_of_two_eight:
  "chunks_of 2 [a, b, c, d, e, f, g, h] = [[a, b], [c, d], [e, f], [g, h]]"
  by (simp add: chunks_of_pos)

lemma chunks_of_harvest_of:
  "map chunk_objects (chunks_of 2 (harvest_of d1 d2 d3 d4 d5 e1 e2 e3))
     = messages_of d1 d2 d3 d4 d5 e1 e2 e3"
  "length (chunks_of 2 (harvest_of d1 d2 d3 d4 d5 e1 e2 e3)) = 4"
  by (simp_all add: harvest_of_def messages_of_def chunks_of_two_eight chunk_objects_def)

lemma payload_sizes_messages_of:
  "map payload_sizes (messages_of d1 d2 d3 d4 d5 e1 e2 e3) = [(2, 0), (2, 0), (1, 1), (0, 2)]"
  by (simp add: messages_of_def)

lemma sequenceNumbers_messages_of:
  "map entry_sequenceNumber (numbered_entries g t (messages_of d1 d2 d3 d4 d5 e1 e2 e3))
     = [g, g + 1, g + 2, g + 3]"
  by (simp add: messages_of_def)

lemma S4_facts:
  "0 \<le> maxNotificationsPerPublish subscription_S4"
  "maxNotificationsPerPublish subscription_S4 = 2"
  "sequence_number_generator subscription_S4 = Some 1"
  "publishIntervalCount subscription_S4 = 0"
  "pending_notifications subscription_S4 = []"
  by (simp_all add: subscription_S4_def example_subscription_def)

theorem collectNotificationData_chunks_witness:
  "collectNotificationData subscription_S4 =
     Some (Inr (messages_S4,
                subscription_S4\<lparr>hasMonitoredItemNotifications_cache := False,
                                 monitoredItems := drained_items_S4\<rparr>))
   \<and> (\<exists>s'. harvestMonitoredItems subscription_S4 = Some (Inr s')
         \<and> pending_notifications s' = numbered_entries 1 0 messages_S4
         \<and> sequence_number_generator s' = Some 5)
   \<and> map entry_sequenceNumber (numbered_entries 1 0 messages_S4) = [1, 2, 3, 4]"
proof -
  have cs: "map chunk_objects (chunks_of (nat (maxNotificationsPerPublish subscription_S4)) harvest_S4)
              = messages_S4"
    and len: "length (chunks_of (nat (maxNotificationsPerPublish subscription_S4)) harvest_S4) = 4"
    unfolding S4_facts(2) harvest_S4_def messages_S4_def
    by (simp_all add: chunks_of_harvest_of)
  from collectNotificationData_chunks [OF visit_S4 S4_facts(1) S4_facts(3)]
  show ?thesis
    unfolding cs len S4_facts(4,5)
    by (simp add: upt_conv_Cons)
qed

text \<open>
  C4 (amended). With \<open>maxNotificationsPerPublish = 2\<close> and a harvest of five data-change
  entries followed by three event entries, notification assembly produces exactly four
  messages whose (data-change, event) payload sizes are (2,0), (2,0), (1,1), (0,2) in
  that order, data-change first within each chunk, with four consecutive sequence
  numbers.
\<close>

theorem collectNotificationData_scenario_S4:
  assumes "visit_monitored_items (Object_keys (monitoredItems s)) (monitoredItems s) []
             = Inr (items', harvest_of d1 d2 d3 d4 d5 e1 e2 e3)"
      and "maxNotificationsPerPublish s = 2"
      and "sequence_number_generator s = Some g"
  shows "collectNotificationData s =
           Some (Inr (messages_of d1 d2 d3 d4 d5 e1 e2 e3,
                      s\<lparr>hasMonitoredItemNotifications_cache := False, monitoredItems := items'\<rparr>))
       \<and> map payload_sizes (messages_of d1 d2 d3 d4 d5 e1 e2 e3)
           = [(2, 0), (2, 0), (1, 1), (0, 2)]
       \<and> (\<exists>s2. harvestMonitoredItems s = Some (Inr s2)
             \<and> pending_notifications s2 =
                 pending_notifications s
                 @ numbered_entries g (publishIntervalCount s) (messages_of d1 d2 d3 d4 d5 e1 e2 e3))
       \<and> map entry_sequenceNumber
             (numbered_entries g (publishIntervalCount s) (messages_of d1 d2 d3 d4 d5 e1 e2 e3))
           = [g, g + 1, g + 2, g + 3]"
proof -
  have m: "0 \<le> maxNotificationsPerPublish s" using assms(2) by simp
  have n: "nat (maxNotificationsPerPublish s) = 2" using assms(2) by simp
  have 1: "collectNotificationData s =
             Some (Inr (messages_of d1 d2 d3 d4 d5 e1 e2 e3,
                        s\<lparr>hasMonitoredItemNotifications_cache := False, monitoredItems := items'\<rparr>))"
    using collectNotificationData_eq [OF assms(1) m] unfolding n chunks_of_harvest_of .
  have 3: "\<exists>s2. harvestMonitoredItems s = Some (Inr s2)
             \<and> pending_notifications s2 =
                 pending_notifications s
                 @ numbered_entries g (publishIntervalCount s) (messages_of d1 d2 d3 d4 d5 e1 e2 e3)"
    using harvestMonitoredItems_eq [OF assms(1) m assms(3)] unfolding n chunks_of_harvest_of
    by simp
  from 1 payload_sizes_messages_of 3 sequenceNumbers_messages_of show ?thesis
    by (intro conjI)
qed

theorem collectNotificationData_scenario_S4_witness:
  "collectNotificationData subscription_S4 =
     Some (Inr (messages_S4,
                subscription_S4\<lparr>hasMonitoredItemNotifications_cache := False,
                                 monitoredItems := drained_items_S4\<rparr>))
   \<and> map payload_sizes messages_S4 = [(2, 0), (2, 0), (1, 1), (0, 2)]
   \<and> (\<exists>s2. harvestMonitoredItems subscription_S4 = Some (Inr s2)
         \<and> pending_notifications s2 = numbered_entries 1 0 messages_S4)
   \<and> map entry_sequenceNumber (numbered_entries 1 0 messages_S4) = [1, 2, 3, 4]"
  using collectNotificationData_scenario_S4
          [OF visit_S4 [unfolded harvest_S4_def] S4_facts(2) S4_facts(3)]
  unfolding S4_facts(4,5) messages_S4_def
  by simp

text \<open>
  C4 as stated fails: the sizes (2,0), (2,0), (1,2), (0,1) would put three entries in
  the third message; the code gives (1,1) and (0,2).
\<close>

theorem collectNotificationData_scenario_S4_counterexample:
  "collectNotificationData subscription_S4 =
     Some (Inr (messages_S4,
                subscription_S4\<lparr>hasMonitoredItemNotifications_cache := False,
                                 monitoredItems := drained_items_S4\<rparr>))
   \<and> map payload_sizes messages_S4 = [(2, 0), (2, 0), (1, 1), (0, 2)]
   \<and> map payload_sizes messages_S4 \<noteq> [(2, 0), (2, 0), (1, 2), (0, 1)]"
proof -
  have "map chunk_objects (chunks_of (nat (maxNotificationsPerPublish subscription_S4)) harvest_S4)
              = messages_S4"
    unfolding S4_facts(2) harvest_S4_def messages_S4_def
    by (simp add: chunks_of_harvest_of)
  with collectNotificationData_eq [OF visit_S4 S4_facts(1)]
  have "collectNotificationData subscription_S4 =
     Some (Inr (messages_S4,
                subscription_S4\<lparr>hasMonitoredItemNotifications_cache := False,
                                 monitoredItems := drained_items_S4\<rparr>))"
    by simp
  moreover have "map payload_sizes messages_S4 = [(2, 0), (2, 0), (1, 1), (0, 2)]"
    unfolding messages_S4_def by (rule payload_sizes_messages_of)
  ultimately show ?thesis by simp
qed

subsection \<open>Expiration\<close>

lemma removeMonitoredItem_present:
  "map_of (monitoredItems s) key = Some item \<Longrightarrow>
   removeMonitoredItem key s =
     (Good, s\<lparr>monitoredItems := AList.delete key (monitoredItems s),
              trace := trace s @ [EmitRemoveMonitoredItem key (item_dispose (item_terminate item))]\<rparr>)"
  by (simp add: removeMonitoredItem_def emit_def Let_def)

lemma remove_all_monitored_items_eq:
  "distinct keys \<Longrightarrow> set keys \<subseteq> dom (map_of (monitoredItems s)) \<Longrightarrow>
   remove_all_monitored_items keys s =
     Inr (s\<lparr>monitoredItems := fold AList.delete keys (monitoredItems s),
            trace := trace s @ removal_events keys (monitoredItems s)\<rparr>)"
proof (induction keys arbitrary: s)
  case Nil
  show ?case by (simp add: removal_events_def)
next
  case (Cons key keys)
  then obtain item where item: "map_of (monitoredItems s) key = Some item" by auto
  let ?s1 = "s\<lparr>monitoredItems := AList.delete key (monitoredItems s),
              trace := trace s @ [EmitRemoveMonitoredItem key (item_dispose (item_terminate item))]\<rparr>"
  from Cons.prems have dk: "distinct keys" and nk: "key \<notin> set keys" by auto
  have dom1: "set keys \<subseteq> dom (map_of (monitoredItems ?s1))"
    using Cons.prems nk by (auto simp: delete_conv')
  have same: "removal_events keys (AList.delete key (monitoredItems s))
                = removal_events keys (monitoredItems s)"
    using nk by (auto simp: removal_events_def delete_conv' intro!: arg_cong [where f = concat])
  have "remove_all_monitored_items (key # keys) s = remove_all_monitored_items keys ?s1"
    by (simp add: removeMonitoredItem_present [OF item])
  also have "\<dots> = Inr (?s1\<lparr>monitoredItems := fold AList.delete keys (monitoredItems ?s1),
                           trace := trace ?s1 @ removal_events keys (monitoredItems ?s1)\<rparr>)"
    by (rule Cons.IH [OF dk dom1])
  also have "\<dots> = Inr (s\<lparr>monitoredItems := fold AList.delete (key # keys) (monitoredItems s),
            trace := trace s @ removal_events (key # keys) (monitoredItems s)\<rparr>)"
    using item by (simp add: same) (simp add: removal_events_def)
  finally show ?case .
qed

lemma fold_delete_filter:
  "fold AList.delete keys al = filter (\<lambda>p. fst p \<notin> set keys) al"
  by (induction keys arbitrary: al) (auto simp: AList.delete_eq intro: filter_cong)

lemma Object_keys_props:
  "distinct (Object_keys al)" "set (Object_keys al) = fst ` set al"
  by (simp_all add: Object_keys_def)

lemma fold_delete_Object_keys: "fold AList.delete (Object_keys al) al = []"
  by (simp add: fold_delete_filter Object_keys_props)

lemma Object_keys_Nil: "Object_keys [] = []"
  by (simp add: Object_keys_def)

lemma terminate_eq:
  assumes "state s \<noteq> CLOSED"
  shows "terminate s =
     Inr (s\<lparr>timerId := None, monitoredItems := [], state := CLOSED,
            trace := trace s
              @ (if timerId s = None then [] else [ClearInterval])
              @ removal_events (Object_keys (monitoredItems s)) (monitoredItems s)
              @ (if has_session s then [UnexposeSubscriptionDiagnostics] else [])
              @ [Emit ''terminated'', OnCloseSubscription]\<rparr>)"
proof -
  let ?s1 = "stop_timer s"
  have s1: "?s1 = s\<lparr>timerId := None,
                     trace := trace s @ (if timerId s = None then [] else [ClearInterval])\<rparr>"
    by (cases "timerId s") (simp_all add: stop_timer_def emit_def)
  have items1: "monitoredItems ?s1 = monitoredItems s" by (simp add: s1)
  have "remove_all_monitored_items (Object_keys (monitoredItems ?s1)) ?s1 =
     Inr (?s1\<lparr>monitoredItems := fold AList.delete (Object_keys (monitoredItems ?s1)) (monitoredItems ?s1),
            trace := trace ?s1 @ removal_events (Object_keys (monitoredItems ?s1)) (monitoredItems ?s1)\<rparr>)"
    by (rule remove_all_monitored_items_eq)
       (simp_all add: Object_keys_props dom_map_of_conv_image_fst)
  then have r: "remove_all_monitored_items (Object_keys (monitoredItems ?s1)) ?s1 =
     Inr (?s1\<lparr>monitoredItems := [],
            trace := trace ?s1 @ removal_events (Object_keys (monitoredItems s)) (monitoredItems s)\<rparr>)"
    unfolding items1 fold_delete_Object_keys .
  show ?thesis
    unfolding terminate_def Let_def r
    using assms
    by (simp add: monitoredItemCount_def Object_keys_Nil emit_def s1)
qed

lemma addNotificationMessage_timeout:
  "addNotificationMessage [StatusChangeNotification BadTimeout] s =
     Inr (s\<lparr>sequence_number_generator := map_option Suc (sequence_number_generator s),
            pending_notifications :=
              pending_notifications s
              @ [\<lparr>notification =
                    \<lparr>sequenceNumber = get_future_sequence_number s,
                     notificationData = [StatusChangeNotification BadTimeout]\<rparr>,
                  start_tick = publishIntervalCount s,
                  entry_sequenceNumber = get_future_sequence_number s\<rparr>],
            trace :=
              trace s
              @ [PushPendingNotification
                   \<lparr>notification =
                      \<lparr>sequenceNumber = get_future_sequence_number s,
                       notificationData = [StatusChangeNotification BadTimeout]\<rparr>,
                    start_tick = publishIntervalCount s,
                    entry_sequenceNumber = get_future_sequence_number s\<rparr>]\<rparr>)"
  by (cases "sequence_number_generator s")
     (simp_all add: addNotificationMessage_def get_next_sequence_number_def
        get_future_sequence_number_def generator_next_def generator_future_def emit_def Let_def)

lemma tick_expiration_eq:
  assumes "state s \<noteq> CLOSED"
      and "0 < lifeTimeCount s"
      and "lifeTimeCount s \<le> life_time_counter s + 1"
  shows "tick s =
     Some (Inr (s\<lparr>sent_notifications := sent_notifications (discardOldSentNotifications s),
                  publishIntervalCount := publishIntervalCount s + 1,
                  life_time_counter := life_time_counter s + 1,
                  sequence_number_generator := map_option Suc (sequence_number_generator s),
                  pending_notifications := pending_notifications s @ [timeout_entry s],
                  timerId := None,
                  monitoredItems := [],
                  state := CLOSED,
                  trace :=
                    trace s
                    @ (if has_on_tick (publishEngine s) then [OnTick] else [])
                    @ [Emit ''expired'', PushPendingNotification (timeout_entry s)]
                    @ (if timerId s = None then [] else [ClearInterval])
                    @ removal_events (Object_keys (monitoredItems s)) (monitoredItems s)
                    @ (if has_session s then [UnexposeSubscriptionDiagnostics] else [])
                    @ [Emit ''terminated'', OnCloseSubscription]\<rparr>))"
proof -
  let ?s4 = "s\<lparr>sent_notifications := sent_notifications (discardOldSentNotifications s),
               trace := trace s @ (if has_on_tick (publishEngine s) then [OnTick] else []),
               publishIntervalCount := publishIntervalCount s + 1,
               life_time_counter := life_time_counter s + 1\<rparr>"
  have d: "discardOldSentNotifications s =
             s\<lparr>sent_notifications := sent_notifications (discardOldSentNotifications s)\<rparr>"
    by (simp add: discardOldSentNotifications_def)
  have s4: "increaseLifeTimeCounter
              ((if has_on_tick (publishEngine (discardOldSentNotifications s))
                then emit OnTick (discardOldSentNotifications s)
                else discardOldSentNotifications s)
               \<lparr>publishIntervalCount :=
                  publishIntervalCount
                    (if has_on_tick (publishEngine (discardOldSentNotifications s))
                     then emit OnTick (discardOldSentNotifications s)
                     else discardOldSentNotifications s) + 1\<rparr>) = ?s4"
    by (subst (1 2 3 4 5 6) d) (simp add: increaseLifeTimeCounter_def emit_def)
  have e: "lifeTimeHasExpired ?s4 = Inr True"
    using assms(2,3) by (simp add: lifeTimeHasExpired_def)
  let ?s5 = "emit (Emit ''expired'') ?s4"
  have f: "get_future_sequence_number ?s5 = get_future_sequence_number s"
    by (simp add: get_future_sequence_number_def emit_def)
  have a: "addNotificationMessage [StatusChangeNotification BadTimeout] ?s5 =
     Inr (?s5\<lparr>sequence_number_generator := map_option Suc (sequence_number_generator s),
            pending_notifications := pending_notifications s @ [timeout_entry s],
            trace := trace ?s5 @ [PushPendingNotification (timeout_entry s)]\<rparr>)"
    unfolding addNotificationMessage_timeout f
    by (simp add: timeout_entry_def emit_def)
  let ?s6 = "?s5\<lparr>sequence_number_generator := map_option Suc (sequence_number_generator s),
            pending_notifications := pending_notifications s @ [timeout_entry s],
            trace := trace ?s5 @ [PushPendingNotification (timeout_entry s)]\<rparr>"
  have "state ?s6 \<noteq> CLOSED" using assms(1) by (simp add: emit_def)
  from terminate_eq [OF this]
  have t: "terminate ?s6 =
     Inr (?s6\<lparr>timerId := None, monitoredItems := [], state := CLOSED,
            trace := trace ?s6
              @ (if timerId ?s6 = None then [] else [ClearInterval])
              @ removal_events (Object_keys (monitoredItems ?s6)) (monitoredItems ?s6)
              @ (if has_session ?s6 then [UnexposeSubscriptionDiagnostics] else [])
              @ [Emit ''terminated'', OnCloseSubscription]\<rparr>)" .
  have "tick s = Some (terminate ?s6)"
    unfolding tick_def Let_def s4
    using assms(1) by (simp add: e a)
  then show ?thesis
    unfolding t by (simp add: emit_def)
qed


text \<open>
  C6 (amended). On every tick of a subscription that is not \<open>CLOSED\<close> (with
  \<open>lifeTimeCount > 0\<close>, as the parameter adjustment guarantees) where the incremented
  \<open>_life_time_counter\<close> reaches or exceeds \<open>lifeTimeCount\<close>, the subscription performs,
  in this order: emit the \<open>expired\<close> event, enqueue a \<open>StatusChangeNotification\<close> with
  status \<open>BadTimeout\<close> onto the pending queue, then \<open>terminate()\<close> (stop the timer, remove
  every monitored item, set the state to \<open>CLOSED\<close>, emit \<open>terminated\<close>, tell the
  publish engine). Afterwards the state is \<open>CLOSED\<close>, the timer is stopped and the
  monitored-item map is empty; nothing else changes, so the tick does no further
  processing.
\<close>

theorem tick_expiration:
  assumes "state s \<noteq> CLOSED"
      and "0 < lifeTimeCount s"
      and "lifeTimeCount s \<le> life_time_counter s + 1"
  shows "tick s =
     Some (Inr (s\<lparr>sent_notifications := sent_notifications (discardOldSentNotifications s),
                  publishIntervalCount := publishIntervalCount s + 1,
                  life_time_counter := life_time_counter s + 1,
                  sequence_number_generator := map_option Suc (sequence_number_generator s),
                  pending_notifications := pending_notifications s @ [timeout_entry s],
                  timerId := None,
                  monitoredItems := [],
                  state := CLOSED,
                  trace :=
                    trace s
                    @ (if has_on_tick (publishEngine s) then [OnTick] else [])
                    @ [Emit ''expired'', PushPendingNotification (timeout_entry s)]
                    @ (if timerId s = None then [] else [ClearInterval])
                    @ removal_events (Object_keys (monitoredItems s)) (monitoredItems s)
                    @ (if has_session s then [UnexposeSubscriptionDiagnostics] else [])
                    @ [Emit ''terminated'', OnCloseSubscription]\<rparr>))"
  using assms by (rule tick_expiration_eq)

lemma about_to_expire_facts:
  "state subscription_about_to_expire \<noteq> CLOSED"
  "0 < lifeTimeCount subscription_about_to_expire"
  "lifeTimeCount subscription_about_to_expire \<le> life_time_counter subscription_about_to_expire + 1"
  by (simp_all add: subscription_about_to_expire_def example_subscription_def)

lemma expired_state_eq:
  "subscription_about_to_expire
     \<lparr>sent_notifications := sent_notifications (discardOldSentNotifications subscription_about_to_expire),
      publishIntervalCount := publishIntervalCount subscription_about_to_expire + 1,
      life_time_counter := life_time_counter subscription_about_to_expire + 1,
      sequence_number_generator := map_option Suc (sequence_number_generator subscription_about_to_expire),
      pending_notifications :=
        pending_notifications subscription_about_to_expire @ [timeout_entry subscription_about_to_expire],
      timerId := None,
      monitoredItems := [],
      state := CLOSED,
      trace :=
        trace subscription_about_to_expire
        @ (if has_on_tick (publishEngine subscription_about_to_expire) then [OnTick] else [])
        @ [Emit ''expired'', PushPendingNotification (timeout_entry subscription_about_to_expire)]
        @ (if timerId subscription_about_to_expire = None then [] else [ClearInterval])
        @ removal_events (Object_keys (monitoredItems subscription_about_to_expire))
            (monitoredItems subscription_about_to_expire)
        @ (if has_session subscription_about_to_expire then [UnexposeSubscriptionDiagnostics] else [])
        @ [Emit ''terminated'', OnCloseSubscription]\<rparr>
   = subscription_expired"
proof -
  have 1: "sent_notifications (discardOldSentNotifications subscription_about_to_expire) = []"
    by (simp add: discardOldSentNotifications_def maxNotificationMessagesInQueue_def
        subscription_about_to_expire_def example_subscription_def)
  have 2: "removal_events (Object_keys (monitoredItems subscription_about_to_expire))
            (monitoredItems subscription_about_to_expire)
           = [EmitRemoveMonitoredItem 7
               \<lparr>notification_buffer = [MonitoredItemNotification 1],
                item_terminated = True, item_disposed = True\<rparr>]"
    by (simp add: removal_events_def Object_keys_def item_terminate_def item_dispose_def
        subscription_about_to_expire_def)
  have 3: "publishIntervalCount subscription_about_to_expire = 49"
    "life_time_counter subscription_about_to_expire = 49"
    "sequence_number_generator subscription_about_to_expire = Some 1"
    "pending_notifications subscription_about_to_expire = []"
    "trace subscription_about_to_expire = []"
    "has_on_tick (publishEngine subscription_about_to_expire) = False"
    "timerId subscription_about_to_expire = Some 100"
    "has_session subscription_about_to_expire = False"
    "sent_notifications subscription_about_to_expire = []"
    by (simp_all add: subscription_about_to_expire_def example_subscription_def)
  show ?thesis
    unfolding 1 2 3 subscription_expired_def
    by (simp add: 3(9) [symmetric])
qed

theorem tick_expiration_witness:
  "tick subscription_about_to_expire = Some (Inr subscription_expired)
   \<and> state subscription_expired = CLOSED
   \<and> timerId subscription_expired = None
   \<and> monitoredItems subscription_expired = []
   \<and> pending_notifications subscription_expired = [timeout_entry subscription_about_to_expire]"
  using tick_expiration [OF about_to_expire_facts]
  unfolding expired_state_eq
  by (simp add: subscription_expired_def)

lemma occurs_before_expired:
  "occurs_before (Emit ''expired'')
     (PushPendingNotification (timeout_entry subscription_about_to_expire))
     (trace subscription_expired)"
  "\<not> occurs_before (PushPendingNotification (timeout_entry subscription_about_to_expire))
       (Emit ''expired'') (trace subscription_expired)"
  by (simp_all add: occurs_before_def subscription_expired_def)

text \<open>
  C6 as stated fails on the order: in the log of the expiring tick the \<open>expired\<close> event
  comes before the push of the \<open>BadTimeout\<close> message, not after it.
\<close>

theorem tick_expiration_order_counterexample:
  "tick subscription_about_to_expire = Some (Inr subscription_expired)
   \<and> occurs_before (Emit ''expired'')
       (PushPendingNotification (timeout_entry subscription_about_to_expire))
       (trace subscription_expired)
   \<and> \<not> occurs_before (PushPendingNotification (timeout_entry subscription_about_to_expire))
         (Emit ''expired'') (trace subscription_expired)"
  using tick_expiration_eq [OF about_to_expire_facts] occurs_before_expired
  unfolding expired_state_eq
  by simp

section \<open>Verification of the acknowledgeable condition\<close>

lemma key_neq_id_key: "k \<noteq> k @ ''.id''"
  by simp

lemma set_twoStateVariable_eq:
  assumes "node_index b (normalizeName varName) = Some a"
      and "nodes c a = Some (TwoStateNode n)"
  shows "set_twoStateVariable normalizeName varName v (c, b) =
     Inr (c\<lparr>nodes := (if isCurrentBranch b
                        then (nodes c)(a \<mapsto> TwoStateNode (n\<lparr>node_value := v\<rparr>))
                        else nodes c),
             condition_log :=
               condition_log c
               @ [ValueChanged (node_index b (normalizeName varName @ ''.id'')) (Variant_Boolean v)]\<rparr>,
          b\<lparr>snapshot_map :=
               (snapshot_map b)
                 (normalizeName varName @ ''.id'' \<mapsto> Variant_Boolean v,
                  normalizeName varName \<mapsto>
                    Variant_LocalizedText (LocalizedText (if v then trueState n else falseState n)))\<rparr>)"
  using assms
  by (simp add: set_twoStateVariable_def Let_def isCurrentBranch_def log_effect_def
      setValue_def coerceLocalizedText_def)

text \<open>
  C9. For every snapshot \<open>S\<close>, every name \<open>V\<close> that the node index of \<open>S\<close> resolves to
  a two-state variable node, and every boolean \<open>b\<close>: \<open>_set_twoStateVariable(V, b)\<close>
  returns normally, and afterwards the snapshot stores under the key of \<open>V.id\<close> the
  Boolean variant \<open>b\<close> and under the key of \<open>V\<close> the LocalizedText variant of the
  node's true-state label when \<open>b\<close> is true and of its false-state label when \<open>b\<close> is
  false; no other key of the snapshot changes, and on the current branch the live node
  takes the value \<open>b\<close>.
\<close>

theorem set_twoStateVariable_stores_id_and_text:
  assumes "node_index S (normalizeName V) = Some a"
      and "nodes c a = Some (TwoStateNode n)"
  shows "\<exists>c' S'. set_twoStateVariable normalizeName V b (c, S) = Inr (c', S')
           \<and> snapshot_map S' (normalizeName V @ ''.id'') = Some (Variant_Boolean b)
           \<and> snapshot_map S' (normalizeName V) =
               Some (Variant_LocalizedText (LocalizedText (if b then trueState n else falseState n)))
           \<and> (\<forall>k. k \<noteq> normalizeName V \<and> k \<noteq> normalizeName V @ ''.id'' \<longrightarrow>
                  snapshot_map S' k = snapshot_map S k)
           \<and> (isCurrentBranch S \<longrightarrow> nodes c' a = Some (TwoStateNode (n\<lparr>node_value := b\<rparr>)))"
  unfolding set_twoStateVariable_eq [of S normalizeName V a c n b, OF assms]
  by simp


theorem set_twoStateVariable_stores_id_and_text_witness:
  "\<exists>c' S'. set_twoStateVariable (\<lambda>x. x) ''ackedState'' True (condition_with_confirm, example_branch)
              = Inr (c', S')
     \<and> snapshot_map S' ''ackedState.id'' = Some (Variant_Boolean True)
     \<and> snapshot_map S' ''ackedState'' = Some (Variant_LocalizedText (LocalizedText ''Acknowledged''))"
proof -
  have 1: "node_index example_branch ''ackedState'' = Some 0"
    by (simp add: example_branch_def)
  have 2: "nodes condition_with_confirm 0 = Some (TwoStateNode ackedState_node)"
    by (simp add: condition_with_confirm_def)
  from set_twoStateVariable_stores_id_and_text
         [of example_branch "\<lambda>x. x" "''ackedState''" 0 condition_with_confirm ackedState_node True,
          OF 1 2]
  show ?thesis by (auto simp: ackedState_node_def)
qed

lemma acknowledge_branch_already_acked_eq:
  assumes "confirmedState c = Some a1"
      and "ackedState c = Some a0"
      and "node_index b (normalizeName ''confirmedState'') = Some a"
      and "nodes c a = Some (TwoStateNode n)"
      and "snapshot_map b (normalizeName ''ackedState'' @ ''.id'') = Some acked"
      and "truthy acked"
      and "normalizeName ''confirmedState'' \<noteq> normalizeName ''ackedState''"
      and "normalizeName ''confirmedState'' \<noteq> normalizeName ''ackedState'' @ ''.id''"
  shows "acknowledge_branch normalizeName eid txt message (c, b) =
     Inr (Some BadConditionBranchAlreadyAcked,
          c\<lparr>nodes := (if isCurrentBranch b
                        then (nodes c)(a \<mapsto> TwoStateNode (n\<lparr>node_value := False\<rparr>))
                        else nodes c),
             condition_log :=
               condition_log c
               @ [ValueChanged (node_index b (normalizeName ''confirmedState'' @ ''.id''))
                    (Variant_Boolean False)]\<rparr>,
          b\<lparr>snapshot_map :=
               (snapshot_map b)
                 (normalizeName ''confirmedState'' @ ''.id'' \<mapsto> Variant_Boolean False,
                  normalizeName ''confirmedState'' \<mapsto>
                    Variant_LocalizedText (LocalizedText (falseState n))),
             retain := True\<rparr>)"
proof -
  let ?c1 = "c\<lparr>nodes := (if isCurrentBranch b
                        then (nodes c)(a \<mapsto> TwoStateNode (n\<lparr>node_value := False\<rparr>))
                        else nodes c),
             condition_log :=
               condition_log c
               @ [ValueChanged (node_index b (normalizeName ''confirmedState'' @ ''.id''))
                    (Variant_Boolean False)]\<rparr>"
  let ?b1 = "b\<lparr>snapshot_map :=
               (snapshot_map b)
                 (normalizeName ''confirmedState'' @ ''.id'' \<mapsto> Variant_Boolean False,
                  normalizeName ''confirmedState'' \<mapsto>
                    Variant_LocalizedText (LocalizedText (falseState n)))\<rparr>"
  have 1: "setConfirmedState normalizeName False (c, b) = Inr (?c1, ?b1)"
    using set_twoStateVariable_eq [of b normalizeName "''confirmedState''" a c n False, OF assms(3,4)]
    by (simp add: setConfirmedState_def assms(1))
  have 2: "getAckedState normalizeName (?c1, ?b1\<lparr>retain := True\<rparr>) = Inr acked"
    using assms(2,5,7,8)
    by (simp add: getAckedState_def get_twoStateVariable_def)
  have 3: "private_setAckedState normalizeName (?c1, ?b1\<lparr>retain := True\<rparr>) True =
             Inr (BadConditionBranchAlreadyAcked, ?c1, ?b1\<lparr>retain := True\<rparr>)"
    unfolding private_setAckedState_def 2 using assms(6) by simp
  show ?thesis
    unfolding acknowledge_branch_def
    using assms(1) by (simp add: 1 setRetain_def 3)
qed

text \<open>
  C10. For a condition that has a ConfirmedState (and whose keys for \<open>confirmedState\<close>
  and \<open>ackedState\<close> differ), \<open>_acknowledge_branch\<close> on a branch whose acked state is
  already true returns \<open>BadConditionBranchAlreadyAcked\<close>, and the branch it leaves
  behind has \<open>confirmedState = false\<close> (with the false-state label) and
  \<open>retain = true\<close>, set before the check; the comment is not stored and no
  acknowledge audit event is raised.
\<close>

theorem acknowledge_branch_already_acked_not_atomic:
  assumes "confirmedState c = Some a1"
      and "ackedState c = Some a0"
      and "node_index b (normalizeName ''confirmedState'') = Some a"
      and "nodes c a = Some (TwoStateNode n)"
      and "snapshot_map b (normalizeName ''ackedState'' @ ''.id'') = Some acked"
      and "truthy acked"
      and "normalizeName ''confirmedState'' \<noteq> normalizeName ''ackedState''"
      and "normalizeName ''confirmedState'' \<noteq> normalizeName ''ackedState'' @ ''.id''"
  shows "\<exists>c' b'. acknowledge_branch normalizeName eid txt message (c, b) =
                   Inr (Some BadConditionBranchAlreadyAcked, c', b')
           \<and> snapshot_map b' (normalizeName ''confirmedState'' @ ''.id'') = Some (Variant_Boolean False)
           \<and> snapshot_map b' (normalizeName ''confirmedState'') =
               Some (Variant_LocalizedText (LocalizedText (falseState n)))
           \<and> retain b' = True
           \<and> comment b' = comment b
           \<and> raised_count ''AuditConditionAcknowledgeEventType'' (condition_log c') =
               raised_count ''AuditConditionAcknowledgeEventType'' (condition_log c)"
proof -
  have r: "raised_count t (xs @ [ValueChanged x y]) = raised_count t xs" for t xs x y
    by (induction t xs rule: raised_count.induct) simp_all
  show ?thesis
    unfolding acknowledge_branch_already_acked_eq
                [of c a1 a0 b normalizeName a n acked eid "txt" message, OF assms]
    by (simp add: r)
qed

theorem acknowledge_branch_already_acked_not_atomic_witness:
  "\<exists>c' b'. acknowledge_branch (\<lambda>x. x) (Some [10, 20, 30]) (LocalizedText ''again'') ''Server/Acknowledge''
              (condition_with_confirm, settled_branch)
            = Inr (Some BadConditionBranchAlreadyAcked, c', b')
     \<and> snapshot_map settled_branch ''confirmedState.id'' = Some (Variant_Boolean True)
     \<and> retain settled_branch = False
     \<and> snapshot_map b' ''confirmedState.id'' = Some (Variant_Boolean False)
     \<and> retain b' = True"
proof -
  have h: "confirmedState condition_with_confirm = Some 1"
    "ackedState condition_with_confirm = Some 0"
    "node_index settled_branch ''confirmedState'' = Some 1"
    "nodes condition_with_confirm 1 = Some (TwoStateNode confirmedState_node)"
    "snapshot_map settled_branch (''ackedState'' @ ''.id'') = Some (Variant_Boolean True)"
    "truthy (Variant_Boolean True)"
    "''confirmedState'' \<noteq> ''ackedState''"
    "''confirmedState'' \<noteq> ''ackedState'' @ ''.id''"
    by (simp_all add: condition_with_confirm_def settled_branch_def example_branch_def)
  have before: "snapshot_map settled_branch ''confirmedState.id'' = Some (Variant_Boolean True)"
    "retain settled_branch = False"
    by (simp_all add: settled_branch_def example_branch_def)
  from acknowledge_branch_already_acked_not_atomic
         [of condition_with_confirm 1 0 settled_branch "\<lambda>x. x" 1 confirmedState_node
             "Variant_Boolean True" "Some [10, 20, 30]" "LocalizedText ''again''" "''Server/Acknowledge''",
          OF h]
  show ?thesis using before by auto
qed

subsection \<open>The Acknowledge and Confirm methods\<close>

lemma acknowledge_method_first:
  "acknowledge_method (\<lambda>x. x) (Some [10, 20, 30]) (LocalizedText ''ok'') condition_without_confirm
     = Inr (Good, condition_acknowledged)"
  by (simp add: acknowledge_method_def with_condition_method_def acknowledge_branch_def
      condition_without_confirm_def condition_acknowledged_def example_branch_def
      ackedState_node_def setRetain_def setComment_def private_setAckedState_def
      getAckedState_def get_twoStateVariable_def set_twoStateVariable_def Let_def
      isCurrentBranch_def log_effect_def coerceLocalizedText_def raiseNewBranchState_def
      branch_confirmed_def getConfirmedState_def deleteBranch_def
      raiseAuditConditionAcknowledgeEvent_def raiseEvent_def getEventId_def getComment_def
      condition_emit_def)

lemma acknowledge_branch_second:
  "acknowledge_branch (\<lambda>x. x) (Some [10, 20, 30]) (LocalizedText ''ok'') ''Method/Acknowledged''
     (condition_acknowledged, branches condition_acknowledged ! 0)
     = Inr (Some BadConditionBranchAlreadyAcked,
            condition_acknowledged, branches condition_acknowledged ! 0)"
  by (simp add: acknowledge_branch_def
      condition_without_confirm_def condition_acknowledged_def example_branch_def
      setRetain_def private_setAckedState_def
      getAckedState_def get_twoStateVariable_def)

lemma findBranch_acknowledged:
  "findBranchForEventId (branches condition_acknowledged) (Some [10, 20, 30]) = Some 0"
  by (simp add: condition_acknowledged_def example_branch_def)

lemma branchId_acknowledged:
  "branchId (branches condition_acknowledged ! 0) \<in> branchId ` set (branches condition_acknowledged)"
  by (simp add: condition_acknowledged_def)

lemma acknowledge_method_second:
  "acknowledge_method (\<lambda>x. x) (Some [10, 20, 30]) (LocalizedText ''ok'') condition_acknowledged
     = Inr (Good, condition_acknowledged)"
  unfolding acknowledge_method_def with_condition_method_def findBranch_acknowledged
  by (simp add: acknowledge_branch_second branchId_acknowledged)

text \<open>
  C7. For the condition without ConfirmedState, the first call of the Acknowledge method
  on event 10-20-30 returns \<open>Good\<close> and raises one
  \<open>AuditConditionAcknowledgeEventType\<close>. On the second call \<open>_acknowledge_branch\<close>
  returns \<open>BadConditionBranchAlreadyAcked\<close> and raises nothing more, but the method
  handler drops that status and answers \<open>Good\<close> again.
\<close>

theorem acknowledge_method_twice:
  "acknowledge_method (\<lambda>x. x) (Some [10, 20, 30]) (LocalizedText ''ok'') condition_without_confirm
     = Inr (Good, condition_acknowledged)
   \<and> acknowledge_branch (\<lambda>x. x) (Some [10, 20, 30]) (LocalizedText ''ok'') ''Method/Acknowledged''
       (condition_acknowledged, branches condition_acknowledged ! 0)
     = Inr (Some BadConditionBranchAlreadyAcked,
            condition_acknowledged, branches condition_acknowledged ! 0)
   \<and> acknowledge_method (\<lambda>x. x) (Some [10, 20, 30]) (LocalizedText ''ok'') condition_acknowledged
     = Inr (Good, condition_acknowledged)
   \<and> raised_count ''AuditConditionAcknowledgeEventType'' (condition_log condition_acknowledged) = 1"
  using acknowledge_method_first acknowledge_branch_second acknowledge_method_second
  by (simp add: condition_acknowledged_def)
















end
